theory Spec2Isabelle
  imports Main
begin

section \<open>JavaScript values, objects and the heap\<close>

text \<open>
  \<^verbatim>\<open>lib/client.js\<close> probes the fields of the caller's options object dynamically
  (truthiness, \<^verbatim>\<open>== null\<close>, \<^verbatim>\<open>=== undefined\<close>, \<^verbatim>\<open>typeof\<close>), so a field holds a
  JavaScript value. Numbers are the integers (ports, milliseconds) and \<open>NaN\<close>;
  strings are lists of code points below 256. Objects live in a heap and are
  reached through references, because the constructor keeps the caller's object
  and writes to it. An object is the list of its own properties in insertion
  order; reading a property that is not there gives \<open>Undefined\<close>.
\<close>

type_synonym addr = nat

datatype val =
    Undefined
  | Null
  | Bool bool
  | Num int
  | NaN
  | Str string
  | Ref addr

type_synonym obj = "(string \<times> val) list"

record heap =
  cells :: "addr \<Rightarrow> obj"
  nxt :: addr

fun lookup :: "obj \<Rightarrow> string \<Rightarrow> val" where
  "lookup [] k = Undefined"
| "lookup ((k', v) # ps) k = (if k' = k then v else lookup ps k)"

fun put :: "string \<Rightarrow> val \<Rightarrow> obj \<Rightarrow> obj" where
  "put k v [] = [(k, v)]"
| "put k v ((k', v') # ps) = (if k' = k then (k, v) # ps else (k', v') # put k v ps)"

definition rd :: "heap \<Rightarrow> addr \<Rightarrow> string \<Rightarrow> val" where
  "rd h a k = lookup (cells h a) k"

definition wr :: "addr \<Rightarrow> string \<Rightarrow> val \<Rightarrow> heap \<Rightarrow> heap" where
  "wr a k v h = h\<lparr>cells := (cells h)(a := put k v (cells h a))\<rparr>"

definition alloc :: "obj \<Rightarrow> heap \<Rightarrow> addr \<times> heap" where
  "alloc ob h = (nxt h, h\<lparr>cells := (cells h)(nxt h := ob), nxt := Suc (nxt h)\<rparr>)"

text \<open>
  \<open>get_prop h v k\<close> is \<^verbatim>\<open>v.k\<close> and \<open>set_prop v k x\<close> is \<^verbatim>\<open>v[k] = x\<close> for a value \<open>v\<close>
  that is not \<^verbatim>\<open>undefined\<close> or \<^verbatim>\<open>null\<close>: a primitive has none of the properties
  the client asks for and, outside strict mode, ignores a write. The client
  reaches both only behind a truthiness or \<^verbatim>\<open>!= null\<close> guard.
\<close>

definition get_prop :: "heap \<Rightarrow> val \<Rightarrow> string \<Rightarrow> val" where
  "get_prop h v k = (case v of Ref b \<Rightarrow> rd h b k | _ \<Rightarrow> Undefined)"

definition set_prop :: "val \<Rightarrow> string \<Rightarrow> val \<Rightarrow> heap \<Rightarrow> heap" where
  "set_prop v k x h = (case v of Ref b \<Rightarrow> wr b k x h | _ \<Rightarrow> h)"

fun truthy :: "val \<Rightarrow> bool" where
  "truthy Undefined = False"
| "truthy Null = False"
| "truthy (Bool b) = b"
| "truthy (Num n) = (n \<noteq> 0)"
| "truthy NaN = False"
| "truthy (Str s) = (s \<noteq> [])"
| "truthy (Ref a) = True"

text \<open>\<^verbatim>\<open>v == null\<close>: true of \<^verbatim>\<open>null\<close> and \<^verbatim>\<open>undefined\<close> only.\<close>

fun nullish :: "val \<Rightarrow> bool" where
  "nullish Undefined = True"
| "nullish Null = True"
| "nullish v = False"

text \<open>\<^verbatim>\<open>a || b\<close>\<close>

definition js_or :: "val \<Rightarrow> val \<Rightarrow> val" where
  "js_or a b = (if truthy a then a else b)"

fun digits :: "nat \<Rightarrow> string" where
  "digits n =
     (if n < 10 then [''0123456789'' ! n]
      else digits (n div 10) @ [''0123456789'' ! (n mod 10)])"

declare digits.simps [simp del]

text \<open>ToString; a plain object prints as \<^verbatim>\<open>[object Object]\<close>.\<close>

fun to_string :: "val \<Rightarrow> string" where
  "to_string Undefined = ''undefined''"
| "to_string Null = ''null''"
| "to_string (Bool b) = (if b then ''true'' else ''false'')"
| "to_string (Num n) = (if n < 0 then ''-'' @ digits (nat (- n)) else digits (nat n))"
| "to_string NaN = ''NaN''"
| "to_string (Str s) = s"
| "to_string (Ref a) = ''[object Object]''"

text \<open>ToNumber of a value that is not a string or an object; \<open>None\<close> is \<open>NaN\<close>.\<close>

fun to_number :: "val \<Rightarrow> int option" where
  "to_number Null = Some 0"
| "to_number (Bool b) = Some (if b then 1 else 0)"
| "to_number (Num n) = Some n"
| "to_number v = None"

text \<open>
  The binary \<^verbatim>\<open>+\<close>: string concatenation as soon as one operand is a string or
  an object, numeric addition otherwise.
\<close>

fun stringy :: "val \<Rightarrow> bool" where
  "stringy (Str s) = True"
| "stringy (Ref a) = True"
| "stringy v = False"

definition js_add :: "val \<Rightarrow> val \<Rightarrow> val" where
  "js_add a b =
     (if stringy a \<or> stringy b then Str (to_string a @ to_string b)
      else case (to_number a, to_number b) of
             (Some x, Some y) \<Rightarrow> Num (x + y)
           | _ \<Rightarrow> NaN)"

section \<open>Collaborators\<close>

datatype error =
    TypeError
  | EncodingError val
  | ConfigurationError string

text \<open>
  What \<^verbatim>\<open>url.parse\<close> gives for a string: of the fields of Node's Url object the
  client reads \<^verbatim>\<open>hostname\<close>, \<^verbatim>\<open>pathname\<close> and \<^verbatim>\<open>port\<close>, each a string or \<^verbatim>\<open>null\<close>
  (its \<^verbatim>\<open>host\<close> and \<^verbatim>\<open>path\<close> are overwritten at once).
\<close>

record url_parts =
  hostname :: "string option"
  pathname :: "string option"
  port :: "string option"

definition opt_val :: "string option \<Rightarrow> val" where
  "opt_val s = (case s of None \<Rightarrow> Null | Some x \<Rightarrow> Str x)"

definition url_obj :: "url_parts \<Rightarrow> obj" where
  "url_obj u =
     [(''port'', opt_val (port u)),
      (''hostname'', opt_val (hostname u)),
      (''pathname'', opt_val (pathname u))]"

text \<open>
  The modules \<^verbatim>\<open>client.js\<close> requires and does not define are parameters:
  Node's \<^verbatim>\<open>url.parse\<close>, \<^verbatim>\<open>Buffer\<close> (base64 of a string, byte length of a string
  under an encoding), \<^verbatim>\<open>zlib.gzip\<close> (the buffer it calls back with for a string,
  \<open>None\<close> when it calls back with an error and no buffer), the package
  version, \<^verbatim>\<open>./serializer\<close> (which may throw) and the class \<^verbatim>\<open>./cookies\<close>, whose
  instances have the state \<open>'j\<close>. A header processor's
  \<^verbatim>\<open>composeRequest(headers)\<close> is handed the header object itself, so it acts on
  the heap; \<^verbatim>\<open>parseResponse(headers)\<close> reads the response's headers and changes
  the processor. A buffer is the string of its bytes.
\<close>

record 'j env =
  url_parse :: "string \<Rightarrow> url_parts"
  base64 :: "string \<Rightarrow> string"
  byteLength :: "string \<Rightarrow> string \<Rightarrow> nat"
  zlib_gzip :: "string \<Rightarrow> string option"
  version :: string
  serializeMethodCall :: "string \<Rightarrow> val list \<Rightarrow> val \<Rightarrow> error + string"
  new_Cookies :: 'j
  Cookies_get :: "'j \<Rightarrow> string \<Rightarrow> val"
  Cookies_set :: "'j \<Rightarrow> string \<Rightarrow> val \<Rightarrow> 'j"
  Cookies_composeRequest :: "'j \<Rightarrow> val \<Rightarrow> heap \<Rightarrow> heap"
  Cookies_parseResponse :: "'j \<Rightarrow> obj \<Rightarrow> 'j"

section \<open>The constructor\<close>

text \<open>
  The constructor's argument is a URI string or (a reference to) an object.
  The client object: \<^verbatim>\<open>this.options\<close> is the reference it keeps,
  \<^verbatim>\<open>this.cookies\<close> is \<open>None\<close> when it was never assigned, and the processor
  list holds references to processors; the only one the constructor ever puts
  there is the object \<^verbatim>\<open>this.cookies\<close>.
\<close>

datatype input = Uri string | Options addr

datatype processor = ThisCookies

record 'j client =
  options :: addr
  isSecure :: bool
  processors :: "processor list"
  cookies :: "'j option"

text \<open>Lines 37--41: a string is parsed into a fresh object.\<close>

definition from_input :: "'j env \<Rightarrow> input \<Rightarrow> heap \<Rightarrow> addr \<times> heap" where
  "from_input env inp h =
     (case inp of
        Options a \<Rightarrow> (a, h)
      | Uri s \<Rightarrow>
          (let (a, h1) = alloc (url_obj (url_parse env s)) h;
               h2 = wr a ''host'' (rd h1 a ''hostname'') h1;
               h3 = wr a ''path'' (rd h2 a ''pathname'') h2
           in (a, h3)))"

text \<open>Lines 43--48; \<^verbatim>\<open>url.parse\<close> throws a TypeError for anything but a string.\<close>

definition apply_url :: "'j env \<Rightarrow> addr \<Rightarrow> heap \<Rightarrow> error + heap" where
  "apply_url env a h =
     (case rd h a ''url'' of
        Undefined \<Rightarrow> Inr h
      | Str s \<Rightarrow>
          (let parsedUrl = url_parse env s;
               h1 = wr a ''host'' (opt_val (hostname parsedUrl)) h;
               h2 = wr a ''path'' (opt_val (pathname parsedUrl)) h1;
               h3 = wr a ''port'' (opt_val (port parsedUrl)) h2
           in Inr h3)
      | _ \<Rightarrow> Inl TypeError)"

text \<open>Lines 50--58.\<close>

definition default_host_port_path :: "bool \<Rightarrow> addr \<Rightarrow> heap \<Rightarrow> heap" where
  "default_host_port_path sec a h =
     (let h1 = (if \<not> truthy (rd h a ''host'') then wr a ''host'' (Str ''localhost'') h else h);
          h2 = (if \<not> truthy (rd h1 a ''port'')
                then wr a ''port'' (Num (if sec then 443 else 80)) h1 else h1);
          h3 = (if \<not> truthy (rd h2 a ''path'') then wr a ''path'' (Str ''/'') h2 else h2)
      in h3)"

text \<open>
  Lines 59--61. \<^verbatim>\<open>charAt\<close> is a method of strings only: calling it on a truthy
  value of another type throws a TypeError.
\<close>

definition charAt0 :: "string \<Rightarrow> string" where
  "charAt0 s = take 1 s"

definition leading_slash :: "addr \<Rightarrow> heap \<Rightarrow> error + heap" where
  "leading_slash a h =
     (let p = rd h a ''path'' in
      if truthy p then
        (case p of
           Str s \<Rightarrow>
             (if charAt0 s \<noteq> ''/'' then Inr (wr a ''path'' (js_add (Str ''/'') p) h)
              else Inr h)
         | _ \<Rightarrow> Inl TypeError)
      else Inr h)"

text \<open>Lines 62--66.\<close>

definition resolve_url :: "bool \<Rightarrow> addr \<Rightarrow> heap \<Rightarrow> heap" where
  "resolve_url sec a h =
     (let h1 = wr a ''keepAlive'' (js_or (rd h a ''keepAlive'') (Num 0)) h;
          h2 = wr a ''gzip'' (js_or (rd h1 a ''gzip'') (Bool False)) h1;
          h3 = wr a ''url''
                 (js_add (js_add (Str (if sec then ''https://'' else ''http://'')) (rd h2 a ''host''))
                    (Str '':'')) h2;
          h4 = wr a ''url''
                 (js_add (rd h3 a ''url'') (js_add (rd h3 a ''port'') (rd h3 a ''path''))) h3
      in h4)"

text \<open>Lines 69--84: the local object \<^verbatim>\<open>headers\<close> of defaults.\<close>

definition default_headers :: "'j env \<Rightarrow> addr \<Rightarrow> heap \<Rightarrow> obj" where
  "default_headers env a h =
     (let headers =
            [(''User-Agent'',
                js_or (rd h a ''userAgent'')
                  (js_add (Str ''NodeJS XML-RPC Client/'') (Str (version env)))),
             (''Content-Type'', Str ''text/xml''),
             (''Accept'', Str ''text/xml''),
             (''Accept-Charset'', Str ''UTF8''),
             (''Connection'', Str ''Keep-Alive'')];
          headers1 = (if truthy (rd h a ''gzip'')
                      then put ''Accept-Encoding'' (Str ''gzip'') headers else headers);
          headers2 = (if rd h a ''gzip'' = Str ''both''
                      then put ''Content-Encoding'' (Str ''gzip'') headers1 else headers1)
      in headers2)"

text \<open>Line 86: \<^verbatim>\<open>options.headers = options.headers || {}\<close>.\<close>

definition init_headers :: "addr \<Rightarrow> heap \<Rightarrow> heap" where
  "init_headers a h =
     (if truthy (rd h a ''headers'') then wr a ''headers'' (rd h a ''headers'') h
      else (let (b, h1) = alloc [] h in wr a ''headers'' (Ref b) h1))"

text \<open>Lines 88--95.\<close>

definition basic_auth_header :: "'j env \<Rightarrow> addr \<Rightarrow> heap \<Rightarrow> heap" where
  "basic_auth_header env a h =
     (let hv = rd h a ''headers''; ba = rd h a ''basic_auth'' in
      if nullish (get_prop h hv ''Authorization'') \<and> \<not> nullish ba \<and>
         \<not> nullish (get_prop h ba ''user'') \<and> \<not> nullish (get_prop h ba ''pass'')
      then
        (let auth = js_add (js_add (get_prop h ba ''user'') (Str '':'')) (get_prop h ba ''pass'')
         in set_prop hv ''Authorization''
              (js_add (Str ''Basic '') (Str (base64 env (to_string auth)))) h)
      else h)"

text \<open>Lines 97--101: the loop over the defaults, in their order.\<close>

fun fill_headers :: "addr \<Rightarrow> obj \<Rightarrow> heap \<Rightarrow> heap" where
  "fill_headers a [] h = h"
| "fill_headers a ((attribute, v) # rest) h =
     fill_headers a rest
       (if get_prop h (rd h a ''headers'') attribute = Undefined
        then set_prop (rd h a ''headers'') attribute v h else h)"

text \<open>
  Lines 103--119. (Lines 121--131 build the connection pool of the transport
  from \<^verbatim>\<open>options.keepAlive\<close>; it is kept by the transport and touches neither
  the options nor the processors.)
\<close>

definition finish :: "'j env \<Rightarrow> bool \<Rightarrow> addr \<Rightarrow> heap \<Rightarrow> heap \<times> 'j client" where
  "finish env sec a h =
     (let h1 = wr a ''method'' (Str ''POST'') h;
          this = \<lparr>options = a, isSecure = sec, processors = [], cookies = None\<rparr>;
          this1 = (if truthy (rd h1 a ''cookies'')
                   then this\<lparr>cookies := Some (new_Cookies env),
                             processors := ThisCookies # processors this\<rparr>
                   else this)
      in (h1, this1))"

text \<open>Lines 62--119, once the path is settled.\<close>

definition assemble :: "'j env \<Rightarrow> bool \<Rightarrow> addr \<Rightarrow> heap \<Rightarrow> heap \<times> 'j client" where
  "assemble env sec a h3 =
     (let h4 = resolve_url sec a h3;
          headers = default_headers env a h4;
          h5 = init_headers a h4;
          h6 = basic_auth_header env a h5;
          h7 = fill_headers a headers h6
      in finish env sec a h7)"

definition Client :: "'j env \<Rightarrow> heap \<Rightarrow> input \<Rightarrow> bool \<Rightarrow> error + (heap \<times> 'j client)" where
  "Client env h0 inp sec =
     (let (a, h1) = from_input env inp h0 in
      case apply_url env a h1 of
        Inl e \<Rightarrow> Inl e
      | Inr h2 \<Rightarrow>
          (case leading_slash a (default_host_port_path sec a h2) of
             Inl e \<Rightarrow> Inl e
           | Inr h3 \<Rightarrow> Inr (assemble env sec a h3)))"

section \<open>methodCall\<close>

text \<open>
  The transport's request object (superagent): \<^verbatim>\<open>post(url)\<close> makes one,
  \<^verbatim>\<open>set(object)\<close> goes through the keys of the object and sets the header of
  that name to the object's value for the key, \<^verbatim>\<open>set(field, value)\<close> sets one
  header and \<^verbatim>\<open>send(data)\<close> gives the body. \<^verbatim>\<open>set\<close> of a value that is not an
  object is rejected by the transport. (\<^verbatim>\<open>request.agent(this.agent)\<close> attaches
  the connection pool.)
\<close>

record request =
  req_url :: val
  req_header :: obj
  req_body :: "string option"

definition post :: "val \<Rightarrow> request" where
  "post u = \<lparr>req_url = u, req_header = [], req_body = None\<rparr>"

definition request_set :: "string \<Rightarrow> val \<Rightarrow> request \<Rightarrow> request" where
  "request_set field v r = r\<lparr>req_header := put field v (req_header r)\<rparr>"

definition request_set_object :: "heap \<Rightarrow> val \<Rightarrow> request \<Rightarrow> error + request" where
  "request_set_object h v r =
     (case v of
        Ref b \<Rightarrow> Inr (fold (\<lambda>key. request_set key (rd h b key)) (map fst (cells h b)) r)
      | _ \<Rightarrow> Inl TypeError)"

definition request_send :: "string \<Rightarrow> request \<Rightarrow> request" where
  "request_send data r = r\<lparr>req_body := Some data\<rparr>"

text \<open>
  What a call leaves behind for its handlers: the request, the body handed to
  \<^verbatim>\<open>zlib.gzip\<close> while its callback is outstanding, the flag \<^verbatim>\<open>ended\<close>, and the
  listeners that the deserializer's callback added to the request's \<^verbatim>\<open>end\<close>
  event, each holding the \<^verbatim>\<open>(err, result)\<close> it will pass on. The user's callback and the
  processors' \<^verbatim>\<open>parseResponse\<close> are code of others; the order and the arguments
  of their invocations are recorded in \<open>log\<close>.
\<close>

datatype action = Callback val val | ParseResponse obj

record call =
  request :: request
  gzip_pending :: "string option"
  ended :: bool
  end_listeners :: "(val \<times> val) list"
  log :: "action list"

text \<open>Lines 107--115: the processor chain.\<close>

definition composeRequest :: "'j env \<Rightarrow> 'j client \<Rightarrow> val \<Rightarrow> heap \<Rightarrow> heap" where
  "composeRequest env this headers h =
     fold (\<lambda>p h'. case p of
                    ThisCookies \<Rightarrow>
                      (case cookies this of
                         Some j \<Rightarrow> Cookies_composeRequest env j headers h'
                       | None \<Rightarrow> h'))
       (processors this) h"

definition parseResponse :: "'j env \<Rightarrow> obj \<Rightarrow> 'j client \<Rightarrow> 'j client" where
  "parseResponse env headers this =
     fold (\<lambda>p c. case p of
                   ThisCookies \<Rightarrow>
                     c\<lparr>cookies := map_option (\<lambda>j. Cookies_parseResponse env j headers) (cookies c)\<rparr>)
       (processors this) this"

text \<open>
  Lines 143--164 and 182: what \<^verbatim>\<open>methodCall\<close> does before it returns. An
  exception of the serializer leaves \<^verbatim>\<open>methodCall\<close> as it is thrown.
\<close>

definition methodCall ::
  "'j env \<Rightarrow> heap \<Rightarrow> 'j client \<Rightarrow> string \<Rightarrow> val list \<Rightarrow> error + (heap \<times> call)" where
  "methodCall env h this method params =
     (let opts = options this in
      case serializeMethodCall env method params (rd h opts ''encoding'') of
        Inl e \<Rightarrow> Inl e
      | Inr xml \<Rightarrow>
          (let h1 = composeRequest env this (rd h opts ''headers'') h;
               request0 = post (rd h1 opts ''url'')
           in case request_set_object h1 (rd h1 opts ''headers'') request0 of
                Inl e \<Rightarrow> Inl e
              | Inr request1 \<Rightarrow>
                  (let both = (truthy (rd h1 opts ''gzip'') \<and> rd h1 opts ''gzip'' = Str ''both'');
                       request2 =
                         (if both then request1
                          else request_send xml
                                 (request_set ''Content-Length''
                                    (Num (int (byteLength env xml ''utf8''))) request1))
                   in Inr (h1, \<lparr>request = request2,
                                 gzip_pending = (if both then Some xml else None), ended = False,
                                 end_listeners = [], log = []\<rparr>))))"

subsection \<open>The handlers\<close>

text \<open>
  After \<^verbatim>\<open>methodCall\<close> has returned, the world is the heap, the client and the
  call. Four things can happen to a call: the request emits \<^verbatim>\<open>error\<close> with an
  error; the request emits \<^verbatim>\<open>end\<close>, when its \<^verbatim>\<open>err\<close>, the status code and the
  headers of its response are read; the deserializer calls back with
  \<^verbatim>\<open>(err, result)\<close>; \<^verbatim>\<open>zlib.gzip\<close> calls back with \<^verbatim>\<open>(err, buffer)\<close>, the buffer
  being the compressed body, or \<^verbatim>\<open>undefined\<close> when compression failed. What it
  calls back with is the collaborator's answer for the body it was handed, so
  that event carries nothing.
\<close>

record 'j state =
  st_heap :: heap
  st_client :: "'j client"
  st_call :: call

datatype event =
    ReqError val
  | ReqEnd val int obj
  | Deserialized val val
  | Gzipped

definition callback :: "val \<Rightarrow> val \<Rightarrow> 'j state \<Rightarrow> 'j state" where
  "callback err result st =
     st\<lparr>st_call := (st_call st)\<lparr>log := log (st_call st) @ [Callback err result]\<rparr>\<rparr>"

definition set_ended :: "'j state \<Rightarrow> 'j state" where
  "set_ended st = st\<lparr>st_call := (st_call st)\<lparr>ended := True\<rparr>\<rparr>"

text \<open>Lines 165--170.\<close>

definition on_error :: "val \<Rightarrow> 'j state \<Rightarrow> 'j state" where
  "on_error err st =
     (if \<not> ended (st_call st) then callback err Undefined (set_ended st) else st)"

text \<open>\<^verbatim>\<open>new Error('Not Found')\<close>\<close>

definition new_Error :: "string \<Rightarrow> heap \<Rightarrow> addr \<times> heap" where
  "new_Error msg h = alloc [(''message'', Str msg)] h"

text \<open>Lines 171--180: the listener of \<^verbatim>\<open>end\<close> that \<^verbatim>\<open>methodCall\<close> registers.\<close>

definition on_end :: "'j env \<Rightarrow> val \<Rightarrow> int \<Rightarrow> obj \<Rightarrow> 'j state \<Rightarrow> 'j state" where
  "on_end env err statusCode headers st =
     (let st1 = set_ended st in
      if truthy err then callback err Undefined st1
      else if statusCode = 404 then
        (let (e, h) = new_Error ''Not Found'' (st_heap st1)
         in callback (Ref e) Undefined (st1\<lparr>st_heap := h\<rparr>))
      else
        st1\<lparr>st_client := parseResponse env headers (st_client st1),
            st_call := (st_call st1)\<lparr>log := log (st_call st1) @ [ParseResponse headers]\<rparr>\<rparr>)"

text \<open>
  The request emits \<^verbatim>\<open>end\<close>: its listeners run in the order of their
  registration, the one of lines 171--180 first, then those of lines 185--187.
\<close>

definition emit_end :: "'j env \<Rightarrow> val \<Rightarrow> int \<Rightarrow> obj \<Rightarrow> 'j state \<Rightarrow> 'j state" where
  "emit_end env err statusCode headers st =
     fold (\<lambda>(e, r). callback e r) (end_listeners (st_call st))
       (on_end env err statusCode headers st)"

text \<open>Lines 183--188.\<close>

definition on_deserialized :: "val \<Rightarrow> val \<Rightarrow> 'j state \<Rightarrow> 'j state" where
  "on_deserialized err result st =
     (if ended (st_call st) then callback err result st
      else st\<lparr>st_call := (st_call st)
                \<lparr>end_listeners := end_listeners (st_call st) @ [(err, result)]\<rparr>\<rparr>)"

text \<open>
  Lines 155--158: the callback handed to \<^verbatim>\<open>zlib.gzip(xml, ...)\<close>. It does not
  look at \<^verbatim>\<open>err\<close>, and \<^verbatim>\<open>buffer.length\<close> of \<^verbatim>\<open>undefined\<close> throws. Without gzip
  mode \<^verbatim>\<open>both\<close> no such callback was handed out.
\<close>

definition on_gzip :: "'j env \<Rightarrow> 'j state \<Rightarrow> error + 'j state" where
  "on_gzip env st =
     (case gzip_pending (st_call st) of
        None \<Rightarrow> Inr st
      | Some xml \<Rightarrow>
          (case zlib_gzip env xml of
             None \<Rightarrow> Inl TypeError
           | Some buffer \<Rightarrow>
               Inr (st\<lparr>st_call := (st_call st)
                        \<lparr>request := request_send buffer
                           (request_set ''Content-Length'' (Num (int (length buffer)))
                              (request (st_call st))),
                         gzip_pending := None\<rparr>\<rparr>)))"

fun step :: "'j env \<Rightarrow> 'j state \<Rightarrow> event \<Rightarrow> error + 'j state" where
  "step env st (ReqError err) = Inr (on_error err st)"
| "step env st (ReqEnd err statusCode headers) = Inr (emit_end env err statusCode headers st)"
| "step env st (Deserialized err result) = Inr (on_deserialized err result st)"
| "step env st Gzipped = on_gzip env st"

fun run :: "'j env \<Rightarrow> 'j state \<Rightarrow> event list \<Rightarrow> error + 'j state" where
  "run env st [] = Inr st"
| "run env st (ev # evs) =
     (case step env st ev of Inl e \<Rightarrow> Inl e | Inr st' \<Rightarrow> run env st' evs)"

text \<open>How often the user's callback was invoked.\<close>

definition callbacks :: "'j state \<Rightarrow> action list" where
  "callbacks st = filter (\<lambda>x. case x of Callback e r \<Rightarrow> True | _ \<Rightarrow> False) (log (st_call st))"

text \<open>
  The events of the transport, the one among them that runs the listeners of
  \<^verbatim>\<open>end\<close>, and the events of the request and the deserializer (all but the
  callback of \<^verbatim>\<open>zlib\<close>).
\<close>

fun is_transport :: "event \<Rightarrow> bool" where
  "is_transport (ReqError err) = True"
| "is_transport (ReqEnd err statusCode headers) = True"
| "is_transport ev = False"

fun is_end :: "event \<Rightarrow> bool" where
  "is_end (ReqEnd err statusCode headers) = True"
| "is_end ev = False"

fun is_signal :: "event \<Rightarrow> bool" where
  "is_signal Gzipped = False"
| "is_signal ev = True"

text \<open>
  Compression does not fail: \<^verbatim>\<open>zlib.gzip\<close> has a buffer for the body it was handed,
  if it was handed one.
\<close>

definition gzip_succeeds :: "'j env \<Rightarrow> call \<Rightarrow> bool" where
  "gzip_succeeds env cl =
     (case gzip_pending cl of None \<Rightarrow> True | Some xml \<Rightarrow> zlib_gzip env xml \<noteq> None)"

text \<open>
  Two ways to compare the state before and after some events: \<open>extends\<close> says
  that nothing recorded, registered or allocated before has been lost; \<open>alike\<close>
  says that two states differ at most in the registered listeners.
\<close>

definition extends :: "'j state \<Rightarrow> 'j state \<Rightarrow> bool" where
  "extends st st' =
     (set (log (st_call st)) \<subseteq> set (log (st_call st'))
      \<and> set (end_listeners (st_call st)) \<subseteq> set (end_listeners (st_call st'))
      \<and> (ended (st_call st) \<longrightarrow> ended (st_call st'))
      \<and> nxt (st_heap st) \<le> nxt (st_heap st')
      \<and> (\<forall>a k. a < nxt (st_heap st) \<longrightarrow> rd (st_heap st') a k = rd (st_heap st) a k))"

definition alike :: "'j state \<Rightarrow> 'j state \<Rightarrow> bool" where
  "alike st st' =
     (st_heap st = st_heap st' \<and> st_client st = st_client st'
      \<and> request (st_call st) = request (st_call st')
      \<and> gzip_pending (st_call st) = gzip_pending (st_call st')
      \<and> ended (st_call st) = ended (st_call st')
      \<and> log (st_call st) = log (st_call st'))"

section \<open>The cookie accessors\<close>

text \<open>Lines 198--203 and 219--225.\<close>

definition getCookie :: "'j env \<Rightarrow> 'j client \<Rightarrow> string \<Rightarrow> error + val" where
  "getCookie env this name =
     (case cookies this of
        None \<Rightarrow> Inl (ConfigurationError ''Cookies support is not turned on for this client instance'')
      | Some j \<Rightarrow> Inr (Cookies_get env j name))"

definition setCookie :: "'j env \<Rightarrow> 'j client \<Rightarrow> string \<Rightarrow> val \<Rightarrow> error + 'j client" where
  "setCookie env this name v =
     (case cookies this of
        None \<Rightarrow> Inl (ConfigurationError ''Cookies support is not turned on for this client instance'')
      | Some j \<Rightarrow> Inr (this\<lparr>cookies := Some (Cookies_set env j name v)\<rparr>))"

section \<open>Collaborators for the concrete runs\<close>

text \<open>
  The theorems below hold for every choice of the collaborators. The concrete
  runs need one choice; this is it.
\<close>

subsection \<open>Node: Buffer and url.parse\<close>

text \<open>
  The bytes of a string in UTF-8 (a code point from 128 to 255 takes two bytes)
  and their base64 text, as \<^verbatim>\<open>new Buffer(s).toString('base64')\<close> gives it.
\<close>

definition utf8 :: "string \<Rightarrow> nat list" where
  "utf8 s =
     concat (map (\<lambda>c. let n = (of_char c :: nat)
                       in if n < 128 then [n] else [192 + n div 64, 128 + n mod 64]) s)"

definition b64_alphabet :: string where
  "b64_alphabet = ''ABCDEFGHIJKLMNOPQRSTUVWXYZabcdefghijklmnopqrstuvwxyz0123456789+/''"

fun b64 :: "nat list \<Rightarrow> string" where
  "b64 [] = []"
| "b64 [a] =
     [b64_alphabet ! (a div 4), b64_alphabet ! ((a mod 4) * 16), CHR ''='', CHR ''='']"
| "b64 [a, b] =
     [b64_alphabet ! (a div 4), b64_alphabet ! ((a mod 4) * 16 + b div 16),
      b64_alphabet ! ((b mod 16) * 4), CHR ''='']"
| "b64 (a # b # c # rest) =
     [b64_alphabet ! (a div 4), b64_alphabet ! ((a mod 4) * 16 + b div 16),
      b64_alphabet ! ((b mod 16) * 4 + c div 64), b64_alphabet ! (c mod 64)] @ b64 rest"

definition node_base64 :: "string \<Rightarrow> string" where
  "node_base64 s = b64 (utf8 s)"

text \<open>
  \<^verbatim>\<open>Buffer.byteLength(s, encoding)\<close> for the text encodings: one byte for each
  code point in \<^verbatim>\<open>latin1\<close>, \<^verbatim>\<open>binary\<close> and \<^verbatim>\<open>ascii\<close>, two in \<^verbatim>\<open>ucs2\<close> and
  \<^verbatim>\<open>utf16le\<close>, the UTF-8 length otherwise.
\<close>

definition node_byteLength :: "string \<Rightarrow> string \<Rightarrow> nat" where
  "node_byteLength s encoding =
     (if encoding \<in> {''latin1'', ''binary'', ''ascii''} then length s
      else if encoding \<in> {''ucs2'', ''ucs-2'', ''utf16le'', ''utf-16le''} then 2 * length s
      else length (utf8 s))"

text \<open>
  A stand-in for \<^verbatim>\<open>zlib.gzip\<close>, which belongs to Node: the UTF-8 bytes of the
  string as a gzip stream (RFC 1952) of stored blocks (RFC 1951), that is a
  header of ten bytes, the bytes in blocks of at most 65535 behind five bytes
  each, the CRC-32 of the bytes and their number. Every gzip decoder gives the
  bytes back; \<^verbatim>\<open>zlib\<close> itself would choose a shorter encoding for a long body.
\<close>

text \<open>
  The CRC-32 register is a list of 32 bits, the lowest first; the polynomial
  is \<^verbatim>\<open>0xEDB88320\<close>.
\<close>

definition crc_poly :: "bool list" where
  "crc_poly =
     [False, False, False, False, False, True, False, False,
      True, True, False, False, False, False, False, True,
      False, False, False, True, True, True, False, True,
      True, False, True, True, False, True, True, True]"

definition crc_shift :: "bool list \<Rightarrow> bool list" where
  "crc_shift c =
     (if hd c then map2 (\<lambda>x y. x \<noteq> y) (tl c @ [False]) crc_poly else tl c @ [False])"

definition bits8 :: "nat \<Rightarrow> bool list" where
  "bits8 n = map (\<lambda>d. odd (n div d)) [1, 2, 4, 8, 16, 32, 64, 128]"

definition crc_byte :: "nat \<Rightarrow> bool list \<Rightarrow> bool list" where
  "crc_byte b c =
     (crc_shift ^^ 8) (map2 (\<lambda>x y. x \<noteq> y) c (bits8 b @ replicate 24 False))"

definition crc32 :: "nat list \<Rightarrow> bool list" where
  "crc32 bytes = map Not (fold crc_byte bytes (replicate 32 True))"

definition byte_of :: "bool list \<Rightarrow> nat" where
  "byte_of bs = foldr (\<lambda>b n. (if b then 1 else 0) + 2 * n) bs 0"

text \<open>The four bytes of a register, the lowest first.\<close>

definition bytes_of :: "bool list \<Rightarrow> nat list" where
  "bytes_of c =
     [byte_of (take 8 c), byte_of (take 8 (drop 8 c)), byte_of (take 8 (drop 16 c)),
      byte_of (drop 24 c)]"

definition le16 :: "nat \<Rightarrow> nat list" where
  "le16 n = [n mod 256, n div 256 mod 256]"

definition le32 :: "nat \<Rightarrow> nat list" where
  "le32 n = le16 (n mod 65536) @ le16 (n div 65536)"

fun stored_blocks :: "nat list \<Rightarrow> nat list" where
  "stored_blocks bytes =
     (if length bytes \<le> 65535
      then [1] @ le16 (length bytes) @ le16 (65535 - length bytes) @ bytes
      else [0, 255, 255, 0, 0] @ take 65535 bytes @ stored_blocks (drop 65535 bytes))"

declare stored_blocks.simps [simp del]

definition node_gzip :: "string \<Rightarrow> string option" where
  "node_gzip s =
     (let bytes = utf8 s
      in Some (map char_of ([31, 139, 8, 0, 0, 0, 0, 0, 0, 3] @ stored_blocks bytes
                            @ bytes_of (crc32 bytes) @ le32 (length bytes))))"

text \<open>
  \<^verbatim>\<open>url.parse\<close> as a table: Node's answers for the two URLs of the concrete
  runs; for every other string the table answers as Node does for the empty
  string, every part \<^verbatim>\<open>null\<close>.
\<close>

definition node_url_parse :: "string \<Rightarrow> url_parts" where
  "node_url_parse s =
     (if s = ''http://localhost:9090''
      then \<lparr>hostname = Some ''localhost'', pathname = Some ''/'', port = Some ''9090''\<rparr>
      else if s = ''https://example.com/RPC2''
      then \<lparr>hostname = Some ''example.com'', pathname = Some ''/RPC2'', port = None\<rparr>
      else \<lparr>hostname = None, pathname = None, port = None\<rparr>)"

subsection \<open>The serializer\<close>

text \<open>
  Modelled from the spec: \<^verbatim>\<open>lib/serializer.js\<close> is not among the sources. The
  spec gives its interface, \<^verbatim>\<open>serializeMethodCall(method, params, encoding)\<close>
  yields the body and may fail with an encoding error on parameters that cannot
  be encoded. This one encodes strings, integers, booleans and \<^verbatim>\<open>null\<close> and
  fails on every other parameter, and on a string that holds the character
  NUL, which no XML document can carry.
\<close>

fun serializeValue :: "val \<Rightarrow> string option" where
  "serializeValue (Str s) =
     (if CHR 0x00 \<in> set s then None else Some (''<string>'' @ s @ ''</string>''))"
| "serializeValue (Num n) = Some (''<int>'' @ to_string (Num n) @ ''</int>'')"
| "serializeValue (Bool b) = Some (''<boolean>'' @ (if b then ''1'' else ''0'') @ ''</boolean>'')"
| "serializeValue Null = Some ''<nil/>''"
| "serializeValue v = None"

text \<open>Modelled from the spec: the parameters in their order, the first failure wins.\<close>

fun serializeParams :: "val list \<Rightarrow> error + string" where
  "serializeParams [] = Inr []"
| "serializeParams (v # vs) =
     (case serializeValue v of
        None \<Rightarrow> Inl (EncodingError v)
      | Some x \<Rightarrow>
          (case serializeParams vs of
             Inl e \<Rightarrow> Inl e
           | Inr rest \<Rightarrow> Inr (''<param><value>'' @ x @ ''</value></param>'' @ rest)))"

text \<open>
  Modelled from the spec: \<^verbatim>\<open>serializeMethodCall\<close> of \<^verbatim>\<open>lib/serializer.js\<close>; the
  encoding does not change the text of the body.
\<close>

definition spec_serializeMethodCall :: "string \<Rightarrow> val list \<Rightarrow> val \<Rightarrow> error + string" where
  "spec_serializeMethodCall method params encoding =
     (case serializeParams params of
        Inl e \<Rightarrow> Inl e
      | Inr ps \<Rightarrow>
          Inr (''<methodCall><methodName>'' @ method @ ''</methodName><params>'' @ ps
               @ ''</params></methodCall>''))"

subsection \<open>The cookie jar\<close>

text \<open>
  Modelled from the spec: \<^verbatim>\<open>lib/cookies.js\<close> is not among the sources. The spec
  (4.3): the jar maps a cookie's name to its current value; \<^verbatim>\<open>get(name)\<close> gives
  the value or "absent", \<^verbatim>\<open>set(name, value)\<close> stores it; \<^verbatim>\<open>composeRequest\<close>
  writes the whole jar into the \<^verbatim>\<open>Cookie\<close> header as name=value pairs joined by
  semicolons; \<^verbatim>\<open>parseResponse\<close> reads the \<^verbatim>\<open>Set-Cookie\<close> entries of the response
  and overwrites the names they give, leaving the others.
\<close>

fun join :: "string \<Rightarrow> string list \<Rightarrow> string" where
  "join sep [] = []"
| "join sep [x] = x"
| "join sep (x # y # ys) = x @ sep @ join sep (y # ys)"

text \<open>Modelled from the spec: \<^verbatim>\<open>get\<close> and \<^verbatim>\<open>set\<close> of \<^verbatim>\<open>lib/cookies.js\<close>.\<close>

definition jar_get :: "obj \<Rightarrow> string \<Rightarrow> val" where
  "jar_get j name = lookup j name"

definition jar_set :: "obj \<Rightarrow> string \<Rightarrow> val \<Rightarrow> obj" where
  "jar_set j name v = put name v j"

text \<open>Modelled from the spec: \<^verbatim>\<open>composeRequest\<close> of \<^verbatim>\<open>lib/cookies.js\<close>.\<close>

definition jar_composeRequest :: "obj \<Rightarrow> val \<Rightarrow> heap \<Rightarrow> heap" where
  "jar_composeRequest j headers h =
     set_prop headers ''Cookie''
       (Str (join '';'' (map (\<lambda>(name, v). name @ ''='' @ to_string v) j))) h"

text \<open>
  Modelled from the spec: \<^verbatim>\<open>parseResponse\<close> of \<^verbatim>\<open>lib/cookies.js\<close>. An entry is
  \<^verbatim>\<open>name=value\<close>, with attributes behind a semicolon that the jar does not keep.
\<close>

definition set_cookie_entry :: "string \<Rightarrow> obj \<Rightarrow> obj" where
  "set_cookie_entry s j =
     (let pair = takeWhile (\<lambda>c. c \<noteq> CHR '';'') s;
          name = takeWhile (\<lambda>c. c \<noteq> CHR ''='') pair
      in put name (Str (drop (Suc (length name)) pair)) j)"

definition jar_parseResponse :: "obj \<Rightarrow> obj \<Rightarrow> obj" where
  "jar_parseResponse j headers =
     fold (\<lambda>(k, v) j'. case v of
                         Str s \<Rightarrow> if k = ''set-cookie'' then set_cookie_entry s j' else j'
                       | _ \<Rightarrow> j')
       headers j"

definition node :: "obj env" where
  "node =
     \<lparr>url_parse = node_url_parse,
      base64 = node_base64,
      byteLength = node_byteLength,
      zlib_gzip = node_gzip,
      version = ''1.3.1'',
      serializeMethodCall = spec_serializeMethodCall,
      new_Cookies = [],
      Cookies_get = jar_get,
      Cookies_set = jar_set,
      Cookies_composeRequest = jar_composeRequest,
      Cookies_parseResponse = jar_parseResponse\<rparr>"

text \<open>The same collaborators, with a \<^verbatim>\<open>zlib.gzip\<close> that fails on every body.\<close>

definition failing_zlib :: "obj env" where
  "failing_zlib = node\<lparr>zlib_gzip := (\<lambda>s. None)\<rparr>"

text \<open>The heap that holds the given objects at the addresses 0, 1, ...\<close>

definition heap_of :: "obj list \<Rightarrow> heap" where
  "heap_of obs = \<lparr>cells = (\<lambda>a. if a < length obs then obs ! a else []), nxt = length obs\<rparr>"

text \<open>
  A heap holding a configuration (the fields \<^verbatim>\<open>methodCall\<close> reads) at address 0
  and its header object at address 1, and a client on it without cookie
  support.
\<close>

definition configured :: heap where
  "configured =
     heap_of [[(''url'', Str ''http://h:80/''), (''headers'', Ref 1), (''gzip'', Bool False)],
              [(''Accept'', Str ''text/xml'')]]"

definition plain_client :: "obj client" where
  "plain_client = \<lparr>options = 0, isSecure = False, processors = [], cookies = None\<rparr>"

text \<open>
  A client on the same configuration with cookie support, whose jar holds the
  cookie \<^verbatim>\<open>a=1\<close>; and the configuration in gzip mode \<^verbatim>\<open>both\<close>.
\<close>

definition cookie_client :: "obj client" where
  "cookie_client =
     \<lparr>options = 0, isSecure = False, processors = [ThisCookies],
      cookies = Some [(''a'', Str ''1'')]\<rparr>"

definition configured_both :: heap where
  "configured_both =
     heap_of [[(''url'', Str ''http://h:80/''), (''headers'', Ref 1), (''gzip'', Str ''both'')],
              [(''Accept'', Str ''text/xml''), (''Content-Encoding'', Str ''gzip'')]]"

section \<open>A session\<close>

text \<open>
  What a caller does with the module: construct a client, set some cookies,
  call a method; then the events of that call arrive in some order.
\<close>

fun setCookies :: "'j env \<Rightarrow> 'j client \<Rightarrow> (string \<times> val) list \<Rightarrow> error + 'j client" where
  "setCookies env this [] = Inr this"
| "setCookies env this ((name, v) # rest) =
     (case setCookie env this name v of
        Inl e \<Rightarrow> Inl e
      | Inr this' \<Rightarrow> setCookies env this' rest)"

definition session ::
  "'j env \<Rightarrow> heap \<Rightarrow> input \<Rightarrow> bool \<Rightarrow> (string \<times> val) list \<Rightarrow> string \<Rightarrow> val list
     \<Rightarrow> event list \<Rightarrow> error + 'j state" where
  "session env h inp sec cs method params evs =
     (case Client env h inp sec of
        Inl e \<Rightarrow> Inl e
      | Inr (h1, this) \<Rightarrow>
          (case setCookies env this cs of
             Inl e \<Rightarrow> Inl e
           | Inr this1 \<Rightarrow>
               (case methodCall env h1 this1 method params of
                  Inl e \<Rightarrow> Inl e
                | Inr (h2, cl) \<Rightarrow>
                    run env \<lparr>st_heap = h2, st_client = this1, st_call = cl\<rparr> evs)))"

text \<open>
  What can be observed of a construction and of a session: a field of an
  object of the heap, the invocations recorded, how often the callback was
  invoked, a header of the request, the byte length of its body under an
  encoding. An exception stays what it is.
\<close>

definition constructed_field :: "error + (heap \<times> 'j client) \<Rightarrow> addr \<Rightarrow> string \<Rightarrow> error + val" where
  "constructed_field r a k = map_sum id (\<lambda>(h, c). rd h a k) r"

definition final_field :: "error + 'j state \<Rightarrow> addr \<Rightarrow> string \<Rightarrow> error + val" where
  "final_field r a k = map_sum id (\<lambda>st. rd (st_heap st) a k) r"

definition final_log :: "error + 'j state \<Rightarrow> error + action list" where
  "final_log r = map_sum id (\<lambda>st. log (st_call st)) r"

definition callback_count :: "error + 'j state \<Rightarrow> error + nat" where
  "callback_count r = map_sum id (\<lambda>st. length (callbacks st)) r"

definition sent_header :: "error + 'j state \<Rightarrow> string \<Rightarrow> error + val" where
  "sent_header r k = map_sum id (\<lambda>st. lookup (req_header (request (st_call st))) k) r"

definition sent_body_length :: "'j env \<Rightarrow> string \<Rightarrow> error + 'j state \<Rightarrow> error + nat option" where
  "sent_body_length env encoding r =
     map_sum id (\<lambda>st. map_option (\<lambda>body. byteLength env body encoding)
                         (req_body (request (st_call st)))) r"

section \<open>What the caller asked for\<close>

text \<open>
  The fields of the constructor's argument as the caller gave them: a URI
  string carries none of \<^verbatim>\<open>headers\<close>, \<^verbatim>\<open>basic_auth\<close>, \<^verbatim>\<open>cookies\<close>, \<^verbatim>\<open>gzip\<close>,
  \<^verbatim>\<open>keepAlive\<close>, \<^verbatim>\<open>userAgent\<close> and \<^verbatim>\<open>url\<close>. The path asked for is that of
  \<^verbatim>\<open>url\<close> when one is given, of the URI string, or the field \<^verbatim>\<open>path\<close>.
\<close>

definition given :: "heap \<Rightarrow> input \<Rightarrow> string \<Rightarrow> val" where
  "given h inp k = (case inp of Uri s \<Rightarrow> Undefined | Options a \<Rightarrow> rd h a k)"

definition requested_path :: "'j env \<Rightarrow> heap \<Rightarrow> input \<Rightarrow> val" where
  "requested_path env h inp =
     (case inp of
        Uri s \<Rightarrow> opt_val (pathname (url_parse env s))
      | Options a \<Rightarrow>
          (case rd h a ''url'' of
             Str u \<Rightarrow> opt_val (pathname (url_parse env u))
           | _ \<Rightarrow> rd h a ''path''))"

definition requested_host :: "'j env \<Rightarrow> heap \<Rightarrow> input \<Rightarrow> val" where
  "requested_host env h inp =
     (case inp of
        Uri s \<Rightarrow> opt_val (hostname (url_parse env s))
      | Options a \<Rightarrow>
          (case rd h a ''url'' of
             Str u \<Rightarrow> opt_val (hostname (url_parse env u))
           | _ \<Rightarrow> rd h a ''host''))"

definition requested_port :: "'j env \<Rightarrow> heap \<Rightarrow> input \<Rightarrow> val" where
  "requested_port env h inp =
     (case inp of
        Uri s \<Rightarrow> opt_val (port (url_parse env s))
      | Options a \<Rightarrow>
          (case rd h a ''url'' of
             Str u \<Rightarrow> opt_val (port (url_parse env u))
           | _ \<Rightarrow> rd h a ''port''))"

text \<open>\<^verbatim>\<open>typeof v === 'string'\<close>\<close>

fun is_str :: "val \<Rightarrow> bool" where
  "is_str (Str s) = True"
| "is_str v = False"

fun is_ref :: "val \<Rightarrow> bool" where
  "is_ref (Ref b) = True"
| "is_ref v = False"

text \<open>
  Inputs of the documented types: the options object is one of the heap's,
  \<^verbatim>\<open>url\<close> is absent or a string, the path asked for is a string or falsy.
\<close>

definition allocated :: "heap \<Rightarrow> input \<Rightarrow> bool" where
  "allocated h inp = (case inp of Uri s \<Rightarrow> True | Options a \<Rightarrow> a < nxt h)"

definition typed_url_path :: "'j env \<Rightarrow> heap \<Rightarrow> input \<Rightarrow> bool" where
  "typed_url_path env h inp =
     ((given h inp ''url'' = Undefined \<or> is_str (given h inp ''url''))
      \<and> (is_str (requested_path env h inp) \<or> \<not> truthy (requested_path env h inp)))"

text \<open>A reference is live when its object has been allocated.\<close>

definition live :: "heap \<Rightarrow> val \<Rightarrow> bool" where
  "live h v = (case v of Ref b \<Rightarrow> b < nxt h | _ \<Rightarrow> True)"

text \<open>\<^verbatim>\<open>headers\<close> is absent (falsy) or an object; \<^verbatim>\<open>basic_auth\<close> is live.\<close>

definition typed_headers :: "heap \<Rightarrow> input \<Rightarrow> bool" where
  "typed_headers h inp =
     ((is_ref (given h inp ''headers'') \<or> \<not> truthy (given h inp ''headers''))
      \<and> live h (given h inp ''headers'')
      \<and> live h (given h inp ''basic_auth''))"

text \<open>
  The path as the specification words it (4.1): "If no path, default \<open>/\<close>; if
  present and not starting with \<open>/\<close>, prepend \<open>/\<close>."
\<close>

definition spec_path :: "val \<Rightarrow> string" where
  "spec_path p =
     (case p of
        Str s \<Rightarrow> if s = [] then ''/'' else if hd s = CHR ''/'' then s else CHR ''/'' # s
      | _ \<Rightarrow> ''/'')"

text \<open>
  The \<^verbatim>\<open>Authorization\<close> header as the specification words it (4.1): "If
  \<^verbatim>\<open>basic_auth.user\<close> and \<^verbatim>\<open>.pass\<close> are both present and no explicit
  \<^verbatim>\<open>Authorization\<close> header was supplied, synthesize \<^verbatim>\<open>Authorization: Basic\<close>
  base64(user:pass)"; otherwise the caller's header stays. Present and supplied
  mean: neither \<^verbatim>\<open>null\<close> nor \<^verbatim>\<open>undefined\<close>. Here \<open>hv\<close> is the caller's
  \<^verbatim>\<open>headers\<close> and \<open>ba\<close> the caller's \<^verbatim>\<open>basic_auth\<close>.
\<close>

definition spec_Authorization :: "'j env \<Rightarrow> heap \<Rightarrow> val \<Rightarrow> val \<Rightarrow> val" where
  "spec_Authorization env h hv ba =
     (if nullish (get_prop h hv ''Authorization'') \<and> \<not> nullish ba
         \<and> \<not> nullish (get_prop h ba ''user'') \<and> \<not> nullish (get_prop h ba ''pass'')
      then Str (''Basic '' @ base64 env (to_string (get_prop h ba ''user'') @ '':''
                  @ to_string (get_prop h ba ''pass'')))
      else get_prop h hv ''Authorization'')"

section \<open>Reading the heap after a write\<close>

lemma lookup_put: "lookup (put k v ob) k' = (if k' = k then v else lookup ob k')"
  by (induction ob) auto

lemma rd_wr: "rd (wr a k v h) a' k' = (if a' = a \<and> k' = k then v else rd h a' k')"
  by (simp add: rd_def wr_def lookup_put)

lemma nxt_wr: "nxt (wr a k v h) = nxt h"
  by (simp add: wr_def)

lemma rd_if_wr:
  "rd (if c then wr a k v h else h) x k' = (if c \<and> x = a \<and> k' = k then v else rd h x k')"
  by (simp add: rd_wr)

lemma nxt_if_wr: "nxt (if c then wr a k v h else h) = nxt h"
  by (simp add: nxt_wr)

lemma rd_set_prop:
  "rd (set_prop hv k v h) a' k' = (if hv = Ref a' \<and> k' = k then v else rd h a' k')"
  by (cases hv) (auto simp: set_prop_def rd_wr)

lemma nxt_set_prop: "nxt (set_prop hv k v h) = nxt h"
  by (cases hv) (simp_all add: set_prop_def nxt_wr)

lemma rd_alloc: "rd (snd (alloc ob h)) a k = (if a = nxt h then lookup ob k else rd h a k)"
  by (simp add: alloc_def rd_def)

lemma fst_alloc: "fst (alloc ob h) = nxt h"
  by (simp add: alloc_def)

lemma nxt_alloc: "nxt (snd (alloc ob h)) = Suc (nxt h)"
  by (simp add: alloc_def)

lemma charAt0_slash: "s \<noteq> [] \<Longrightarrow> (charAt0 s = ''/'') = (hd s = CHR ''/'')"
  by (cases s) (simp_all add: charAt0_def)

lemma apply_url_ok:
  assumes "rd h a ''url'' = Undefined \<or> is_str (rd h a ''url'')"
  shows "\<exists>h2. apply_url env a h = Inr h2 \<and> nxt h2 = nxt h
    \<and> rd h2 a ''path'' = (case rd h a ''url'' of Str u \<Rightarrow> opt_val (pathname (url_parse env u)) | _ \<Rightarrow> rd h a ''path'')
    \<and> rd h2 a ''host'' = (case rd h a ''url'' of Str u \<Rightarrow> opt_val (hostname (url_parse env u)) | _ \<Rightarrow> rd h a ''host'')
    \<and> rd h2 a ''port'' = (case rd h a ''url'' of Str u \<Rightarrow> opt_val (port (url_parse env u)) | _ \<Rightarrow> rd h a ''port'')
    \<and> (\<forall>x k. k \<notin> {''host'', ''path'', ''port''} \<or> x \<noteq> a \<longrightarrow> rd h2 x k = rd h x k)"
proof (cases "rd h a ''url''")
  case Undefined
  then show ?thesis by (simp add: apply_url_def)
next
  case (Str u)
  then show ?thesis by (simp add: apply_url_def Let_def rd_wr nxt_wr)
qed (use assms in simp_all)

lemma default_host_port_path_rd:
  "rd (default_host_port_path sec a h) x k =
     (if x = a \<and> k = ''host'' \<and> \<not> truthy (rd h a ''host'') then Str ''localhost''
      else if x = a \<and> k = ''port'' \<and> \<not> truthy (rd h a ''port'') then Num (if sec then 443 else 80)
      else if x = a \<and> k = ''path'' \<and> \<not> truthy (rd h a ''path'') then Str ''/''
      else rd h x k)"
  by (simp add: default_host_port_path_def Let_def rd_if_wr rd_wr)

lemma nxt_default_host_port_path: "nxt (default_host_port_path sec a h) = nxt h"
  by (simp add: default_host_port_path_def Let_def nxt_if_wr)

lemma leading_slash_ok:
  assumes "is_str (rd h a ''path'')" "truthy (rd h a ''path'')"
  shows "\<exists>h3. leading_slash a h = Inr h3 \<and> nxt h3 = nxt h
    \<and> rd h3 a ''path'' = Str (spec_path (rd h a ''path''))
    \<and> (\<forall>x k. k \<noteq> ''path'' \<or> x \<noteq> a \<longrightarrow> rd h3 x k = rd h x k)"
proof (cases "rd h a ''path''")
  case (Str s)
  with assms have ne: "s \<noteq> []" by simp
  show ?thesis
    by (simp add: leading_slash_def Let_def Str ne rd_wr nxt_wr spec_path_def charAt0_slash [OF ne] js_add_def)
qed (use assms in simp_all)

lemma normalise_ok:
  assumes u: "rd h a ''url'' = Undefined \<or> is_str (rd h a ''url'')"
    and p: "p = (case rd h a ''url'' of Str u \<Rightarrow> opt_val (pathname (url_parse env u)) | _ \<Rightarrow> rd h a ''path'')"
    and t: "is_str p \<or> \<not> truthy p"
  obtains h2 h3 where "apply_url env a h = Inr h2"
    and "leading_slash a (default_host_port_path sec a h2) = Inr h3"
    and "nxt h3 = nxt h"
    and "rd h3 a ''path'' = Str (spec_path p)"
    and "rd h3 a ''host'' =
          js_or (case rd h a ''url'' of Str u \<Rightarrow> opt_val (hostname (url_parse env u)) | _ \<Rightarrow> rd h a ''host'')
            (Str ''localhost'')"
    and "rd h3 a ''port'' =
          js_or (case rd h a ''url'' of Str u \<Rightarrow> opt_val (port (url_parse env u)) | _ \<Rightarrow> rd h a ''port'')
            (Num (if sec then 443 else 80))"
    and "\<forall>x k. k \<notin> {''host'', ''path'', ''port''} \<or> x \<noteq> a \<longrightarrow> rd h3 x k = rd h x k"
proof -
  from apply_url_ok [OF u, of env] obtain h2 where
    h2: "apply_url env a h = Inr h2" "nxt h2 = nxt h" "rd h2 a ''path'' = p"
      "rd h2 a ''host'' = (case rd h a ''url'' of Str u \<Rightarrow> opt_val (hostname (url_parse env u)) | _ \<Rightarrow> rd h a ''host'')"
      "rd h2 a ''port'' = (case rd h a ''url'' of Str u \<Rightarrow> opt_val (port (url_parse env u)) | _ \<Rightarrow> rd h a ''port'')"
      "\<forall>x k. k \<notin> {''host'', ''path'', ''port''} \<or> x \<noteq> a \<longrightarrow> rd h2 x k = rd h x k"
    using p by auto
  let ?d = "default_host_port_path sec a h2"
  have dp: "rd ?d a ''path'' = (if truthy p then p else Str ''/'')"
    by (simp add: default_host_port_path_rd h2(3))
  have s: "is_str (rd ?d a ''path'')" "truthy (rd ?d a ''path'')"
    using t by (auto simp: dp)
  from leading_slash_ok [OF s] obtain h3 where
    h3: "leading_slash a ?d = Inr h3" "nxt h3 = nxt ?d"
      "rd h3 a ''path'' = Str (spec_path (rd ?d a ''path''))"
      "\<forall>x k. k \<noteq> ''path'' \<or> x \<noteq> a \<longrightarrow> rd h3 x k = rd ?d x k"
    by auto
  have sl: "spec_path (rd ?d a ''path'') = spec_path p"
    using t by (cases p) (auto simp: dp spec_path_def)
  have host: "rd h3 a ''host'' =
          js_or (case rd h a ''url'' of Str u \<Rightarrow> opt_val (hostname (url_parse env u)) | _ \<Rightarrow> rd h a ''host'')
            (Str ''localhost'')"
    using h3(4) by (simp add: default_host_port_path_rd js_or_def h2(4))
  have port: "rd h3 a ''port'' =
          js_or (case rd h a ''url'' of Str u \<Rightarrow> opt_val (port (url_parse env u)) | _ \<Rightarrow> rd h a ''port'')
            (Num (if sec then 443 else 80))"
    using h3(4) by (simp add: default_host_port_path_rd js_or_def h2(5))
  have frame: "\<forall>x k. k \<notin> {''host'', ''path'', ''port''} \<or> x \<noteq> a \<longrightarrow> rd h3 x k = rd h x k"
    using h3(4) h2(6) by (auto simp: default_host_port_path_rd)
  have n3: "nxt h3 = nxt h"
    using h3(2) h2(2) by (simp add: nxt_default_host_port_path)
  have p3: "rd h3 a ''path'' = Str (spec_path p)"
    using h3(3) sl by simp
  show ?thesis
    by (rule that [OF h2(1) h3(1) n3 p3 host port frame])
qed

section \<open>The constructor, step by step\<close>

lemma js_add_Str_left: "js_add (Str s) v = Str (s @ to_string v)"
  by (simp add: js_add_def)

lemma js_add_Str_right: "js_add v (Str s) = Str (to_string v @ s)"
  by (simp add: js_add_def)

lemma resolve_url_rd:
  "rd (resolve_url sec a h) x k =
     (if x = a \<and> k = ''url'' then
        (case rd h a ''path'' of
           Str p \<Rightarrow> Str ((if sec then ''https://'' else ''http://'') @ to_string (rd h a ''host'') @ '':''
                        @ to_string (rd h a ''port'') @ p)
         | _ \<Rightarrow> js_add (Str ((if sec then ''https://'' else ''http://'') @ to_string (rd h a ''host'') @ '':''))
                 (js_add (rd h a ''port'') (rd h a ''path'')))
      else if x = a \<and> k = ''gzip'' then js_or (rd h a ''gzip'') (Bool False)
      else if x = a \<and> k = ''keepAlive'' then js_or (rd h a ''keepAlive'') (Num 0)
      else rd h x k)"
  by (simp add: resolve_url_def Let_def rd_wr js_add_Str_left js_add_Str_right split: val.splits)

lemma nxt_resolve_url: "nxt (resolve_url sec a h) = nxt h"
  by (simp add: resolve_url_def Let_def nxt_wr)

lemma init_headers_truthy:
  assumes "truthy (rd h a ''headers'')"
  shows "rd (init_headers a h) x k = rd h x k" and "nxt (init_headers a h) = nxt h"
  using assms by (simp_all add: init_headers_def rd_wr nxt_wr)

lemma init_headers_falsy:
  assumes "\<not> truthy (rd h a ''headers'')" "a \<noteq> nxt h"
  shows "rd (init_headers a h) x k =
          (if x = a \<and> k = ''headers'' then Ref (nxt h)
           else if x = nxt h then Undefined else rd h x k)"
    and "nxt (init_headers a h) = Suc (nxt h)"
  using assms
  by (simp_all add: init_headers_def rd_wr nxt_wr split_def fst_alloc rd_alloc nxt_alloc)

lemma basic_auth_header_rd:
  "rd (basic_auth_header env a h) x k =
     (if nullish (get_prop h (rd h a ''headers'') ''Authorization'')
         \<and> \<not> nullish (rd h a ''basic_auth'')
         \<and> \<not> nullish (get_prop h (rd h a ''basic_auth'') ''user'')
         \<and> \<not> nullish (get_prop h (rd h a ''basic_auth'') ''pass'')
         \<and> rd h a ''headers'' = Ref x \<and> k = ''Authorization''
      then Str (''Basic '' @ base64 env
                  (to_string (get_prop h (rd h a ''basic_auth'') ''user'') @ '':''
                   @ to_string (get_prop h (rd h a ''basic_auth'') ''pass'')))
      else rd h x k)"
  by (auto simp: basic_auth_header_def Let_def rd_set_prop js_add_Str_left js_add_Str_right)

lemma nxt_basic_auth_header: "nxt (basic_auth_header env a h) = nxt h"
  by (simp add: basic_auth_header_def Let_def nxt_set_prop)

lemma nxt_fill_headers: "nxt (fill_headers a hs h) = nxt h"
  by (induction hs arbitrary: h) (auto simp: nxt_set_prop)

lemma get_prop_Ref: "get_prop h (Ref b) k = rd h b k"
  by (simp add: get_prop_def)

lemma fill_headers_rd:
  assumes "''headers'' \<notin> fst ` set hs" "distinct (map fst hs)"
  shows "rd (fill_headers a hs h) x k =
     (case map_of hs k of
        Some v \<Rightarrow> if rd h a ''headers'' = Ref x \<and> rd h x k = Undefined then v else rd h x k
      | None \<Rightarrow> rd h x k)"
  using assms
proof (induction hs arbitrary: h)
  case Nil
  then show ?case by simp
next
  case (Cons e hs)
  obtain k' v' where e: "e = (k', v')" by (cases e)
  let ?h = "if get_prop h (rd h a ''headers'') k' = Undefined
            then set_prop (rd h a ''headers'') k' v' h else h"
  have hd: "rd ?h a ''headers'' = rd h a ''headers''"
    using Cons.prems by (auto simp: e rd_set_prop)
  have notin: "map_of hs k' = None"
    using Cons.prems by (auto simp: e map_of_eq_None_iff)
  have step: "rd (fill_headers a (e # hs) h) x k = rd (fill_headers a hs ?h) x k"
    by (simp add: e)
  have IH: "rd (fill_headers a hs ?h) x k =
     (case map_of hs k of
        Some v \<Rightarrow> if rd ?h a ''headers'' = Ref x \<and> rd ?h x k = Undefined then v else rd ?h x k
      | None \<Rightarrow> rd ?h x k)"
    using Cons.IH [of ?h] Cons.prems by simp
  show ?case
  proof (cases "k = k'")
    case True
    then show ?thesis
      unfolding step IH hd using notin
      by (cases "rd h a ''headers''") (auto simp: e rd_set_prop get_prop_def)
  next
    case False
    then have same: "rd ?h x k = rd h x k"
      by (auto simp: rd_set_prop)
    show ?thesis
      unfolding step IH hd same using False by (simp add: e)
  qed
qed

lemma default_headers_keys:
  "''headers'' \<notin> fst ` set (default_headers env a h)"
  "distinct (map fst (default_headers env a h))"
  by (auto simp: default_headers_def Let_def)

lemma default_headers_map_of:
  "map_of (default_headers env a h) k =
     (if k = ''User-Agent'' then Some (js_or (rd h a ''userAgent'') (Str (''NodeJS XML-RPC Client/'' @ version env)))
      else if k = ''Content-Type'' then Some (Str ''text/xml'')
      else if k = ''Accept'' then Some (Str ''text/xml'')
      else if k = ''Accept-Charset'' then Some (Str ''UTF8'')
      else if k = ''Connection'' then Some (Str ''Keep-Alive'')
      else if k = ''Accept-Encoding'' \<and> truthy (rd h a ''gzip'') then Some (Str ''gzip'')
      else if k = ''Content-Encoding'' \<and> rd h a ''gzip'' = Str ''both'' then Some (Str ''gzip'')
      else None)"
  by (auto simp: default_headers_def Let_def js_add_Str_left)

lemma from_input_Uri:
  obtains h1 where "from_input env (Uri s) h = (nxt h, h1)" and "nxt h1 = Suc (nxt h)"
    and "rd h1 (nxt h) ''path'' = opt_val (pathname (url_parse env s))"
    and "rd h1 (nxt h) ''host'' = opt_val (hostname (url_parse env s))"
    and "rd h1 (nxt h) ''port'' = opt_val (port (url_parse env s))"
    and "\<forall>k. k \<notin> {''port'', ''hostname'', ''pathname'', ''host'', ''path''} \<longrightarrow> rd h1 (nxt h) k = Undefined"
    and "\<forall>x k. x \<noteq> nxt h \<longrightarrow> rd h1 x k = rd h x k"
proof -
  have "\<exists>h1. from_input env (Uri s) h = (nxt h, h1) \<and> nxt h1 = Suc (nxt h)
     \<and> rd h1 (nxt h) ''path'' = opt_val (pathname (url_parse env s))
     \<and> rd h1 (nxt h) ''host'' = opt_val (hostname (url_parse env s))
     \<and> rd h1 (nxt h) ''port'' = opt_val (port (url_parse env s))
     \<and> (\<forall>k. k \<notin> {''port'', ''hostname'', ''pathname'', ''host'', ''path''} \<longrightarrow> rd h1 (nxt h) k = Undefined)
     \<and> (\<forall>x k. x \<noteq> nxt h \<longrightarrow> rd h1 x k = rd h x k)"
    by (simp add: from_input_def split_def Let_def fst_alloc rd_wr nxt_wr rd_alloc nxt_alloc url_obj_def)
  then show ?thesis
    by (elim exE conjE) (rule that)
qed

lemma stage1:
  assumes al: "allocated h inp" and ty: "typed_url_path env h inp"
  obtains a h3 where "Client env h inp sec = Inr (assemble env sec a h3)"
    and "a = (case inp of Uri s \<Rightarrow> nxt h | Options b \<Rightarrow> b)"
    and "nxt h3 = (case inp of Uri s \<Rightarrow> Suc (nxt h) | Options b \<Rightarrow> nxt h)"
    and "a < nxt h3"
    and "rd h3 a ''path'' = Str (spec_path (requested_path env h inp))"
    and "rd h3 a ''host'' = js_or (requested_host env h inp) (Str ''localhost'')"
    and "rd h3 a ''port'' = js_or (requested_port env h inp) (Num (if sec then 443 else 80))"
    and "\<forall>k. k \<notin> {''port'', ''hostname'', ''pathname'', ''host'', ''path''} \<longrightarrow> rd h3 a k = given h inp k"
    and "\<forall>x k. x < nxt h \<and> (x \<noteq> a \<or> k \<notin> {''host'', ''path'', ''port''}) \<longrightarrow> rd h3 x k = rd h x k"
proof (cases inp)
  case (Uri s)
  obtain h1 where
    h1: "from_input env (Uri s) h = (nxt h, h1)" "nxt h1 = Suc (nxt h)"
      "rd h1 (nxt h) ''path'' = opt_val (pathname (url_parse env s))"
      "\<forall>k. k \<notin> {''port'', ''hostname'', ''pathname'', ''host'', ''path''} \<longrightarrow> rd h1 (nxt h) k = Undefined"
      "\<forall>x k. x \<noteq> nxt h \<longrightarrow> rd h1 x k = rd h x k"
      "rd h1 (nxt h) ''host'' = opt_val (hostname (url_parse env s))"
      "rd h1 (nxt h) ''port'' = opt_val (port (url_parse env s))"
    by (rule from_input_Uri [of env s h])
  have url: "rd h1 (nxt h) ''url'' = Undefined"
    using h1(4) by simp
  have u: "rd h1 (nxt h) ''url'' = Undefined \<or> is_str (rd h1 (nxt h) ''url'')"
    using url by simp
  have p: "requested_path env h inp =
      (case rd h1 (nxt h) ''url'' of Str u \<Rightarrow> opt_val (pathname (url_parse env u)) | _ \<Rightarrow> rd h1 (nxt h) ''path'')"
    by (simp add: requested_path_def Uri url h1(3))
  have t: "is_str (requested_path env h inp) \<or> \<not> truthy (requested_path env h inp)"
    using ty by (simp add: typed_url_path_def)
  obtain h2 h3 where
    n: "apply_url env (nxt h) h1 = Inr h2"
      "leading_slash (nxt h) (default_host_port_path sec (nxt h) h2) = Inr h3"
      "nxt h3 = nxt h1"
      "rd h3 (nxt h) ''path'' = Str (spec_path (requested_path env h inp))"
      "rd h3 (nxt h) ''host'' =
          js_or (case rd h1 (nxt h) ''url'' of Str u \<Rightarrow> opt_val (hostname (url_parse env u)) | _ \<Rightarrow> rd h1 (nxt h) ''host'')
            (Str ''localhost'')"
      "rd h3 (nxt h) ''port'' =
          js_or (case rd h1 (nxt h) ''url'' of Str u \<Rightarrow> opt_val (port (url_parse env u)) | _ \<Rightarrow> rd h1 (nxt h) ''port'')
            (Num (if sec then 443 else 80))"
      "\<forall>x k. k \<notin> {''host'', ''path'', ''port''} \<or> x \<noteq> nxt h \<longrightarrow> rd h3 x k = rd h1 x k"
    by (rule normalise_ok [OF u p t])
  show ?thesis
  proof (rule that [of "nxt h" h3])
    show "Client env h inp sec = Inr (assemble env sec (nxt h) h3)"
      by (simp add: Client_def Uri h1(1) n(1) n(2))
    show "nxt h = (case inp of Uri s \<Rightarrow> nxt h | Options b \<Rightarrow> b)"
      by (simp add: Uri)
    show "nxt h3 = (case inp of Uri s \<Rightarrow> Suc (nxt h) | Options b \<Rightarrow> nxt h)"
      by (simp add: Uri n(3) h1(2))
    show "nxt h < nxt h3"
      by (simp add: n(3) h1(2))
    show "\<forall>k. k \<notin> {''port'', ''hostname'', ''pathname'', ''host'', ''path''} \<longrightarrow> rd h3 (nxt h) k = given h inp k"
      using n(7) h1(4) by (simp add: given_def Uri)
    show "\<forall>x k. x < nxt h \<and> (x \<noteq> nxt h \<or> k \<notin> {''host'', ''path'', ''port''}) \<longrightarrow> rd h3 x k = rd h x k"
      using n(7) h1(5) by simp
    show "rd h3 (nxt h) ''host'' = js_or (requested_host env h inp) (Str ''localhost'')"
      by (simp add: n(5) url h1(6) requested_host_def Uri)
    show "rd h3 (nxt h) ''port'' = js_or (requested_port env h inp) (Num (if sec then 443 else 80))"
      by (simp add: n(6) url h1(7) requested_port_def Uri)
  qed (rule n(4))
next
  case (Options a)
  have u: "rd h a ''url'' = Undefined \<or> is_str (rd h a ''url'')"
    using ty by (simp add: typed_url_path_def given_def Options)
  have p: "requested_path env h inp =
      (case rd h a ''url'' of Str u \<Rightarrow> opt_val (pathname (url_parse env u)) | _ \<Rightarrow> rd h a ''path'')"
    by (simp add: requested_path_def Options)
  have t: "is_str (requested_path env h inp) \<or> \<not> truthy (requested_path env h inp)"
    using ty by (simp add: typed_url_path_def)
  obtain h2 h3 where
    n: "apply_url env a h = Inr h2"
      "leading_slash a (default_host_port_path sec a h2) = Inr h3"
      "nxt h3 = nxt h"
      "rd h3 a ''path'' = Str (spec_path (requested_path env h inp))"
      "rd h3 a ''host'' =
          js_or (case rd h a ''url'' of Str u \<Rightarrow> opt_val (hostname (url_parse env u)) | _ \<Rightarrow> rd h a ''host'')
            (Str ''localhost'')"
      "rd h3 a ''port'' =
          js_or (case rd h a ''url'' of Str u \<Rightarrow> opt_val (port (url_parse env u)) | _ \<Rightarrow> rd h a ''port'')
            (Num (if sec then 443 else 80))"
      "\<forall>x k. k \<notin> {''host'', ''path'', ''port''} \<or> x \<noteq> a \<longrightarrow> rd h3 x k = rd h x k"
    by (rule normalise_ok [OF u p t])
  have lt: "a < nxt h" using al by (simp add: allocated_def Options)
  show ?thesis
  proof (rule that [of a h3])
    show "Client env h inp sec = Inr (assemble env sec a h3)"
      by (simp add: Client_def Options from_input_def n(1) n(2))
    show "a = (case inp of Uri s \<Rightarrow> nxt h | Options b \<Rightarrow> b)"
      by (simp add: Options)
    show "nxt h3 = (case inp of Uri s \<Rightarrow> Suc (nxt h) | Options b \<Rightarrow> nxt h)"
      by (simp add: Options n(3))
    show "a < nxt h3"
      by (simp add: n(3) lt)
    show "\<forall>k. k \<notin> {''port'', ''hostname'', ''pathname'', ''host'', ''path''} \<longrightarrow> rd h3 a k = given h inp k"
      using n(7) by (simp add: given_def Options)
    show "\<forall>x k. x < nxt h \<and> (x \<noteq> a \<or> k \<notin> {''host'', ''path'', ''port''}) \<longrightarrow> rd h3 x k = rd h x k"
      using n(7) by auto
    show "rd h3 a ''host'' = js_or (requested_host env h inp) (Str ''localhost'')"
      by (simp add: n(5) requested_host_def Options)
    show "rd h3 a ''port'' = js_or (requested_port env h inp) (Num (if sec then 443 else 80))"
      by (simp add: n(6) requested_port_def Options)
  qed (rule n(4))
qed

lemma assemble_client:
  "snd (assemble env sec a h) =
     \<lparr>options = a, isSecure = sec,
      processors = (if truthy (rd (fst (assemble env sec a h)) a ''cookies'') then [ThisCookies] else []),
      cookies = (if truthy (rd (fst (assemble env sec a h)) a ''cookies'') then Some (new_Cookies env) else None)\<rparr>"
  by (simp add: assemble_def finish_def Let_def)

lemma assemble_heap:
  "fst (assemble env sec a h) =
     wr a ''method'' (Str ''POST'')
       (fill_headers a (default_headers env a (resolve_url sec a h))
          (basic_auth_header env a (init_headers a (resolve_url sec a h))))"
  by (simp add: assemble_def finish_def Let_def)

lemma rd_init_headers_frame:
  assumes "x \<noteq> nxt h" "k \<noteq> ''headers''"
  shows "rd (init_headers a h) x k = rd h x k"
  using assms
  by (cases "truthy (rd h a ''headers'')")
     (simp_all add: init_headers_def rd_wr split_def fst_alloc rd_alloc)

lemma assemble_frame:
  assumes x: "x < nxt h"
    and k: "k \<notin> {''keepAlive'', ''gzip'', ''url'', ''headers'', ''method'', ''Authorization'',
               ''User-Agent'', ''Content-Type'', ''Accept'', ''Accept-Charset'', ''Connection'',
               ''Accept-Encoding'', ''Content-Encoding''}"
  shows "rd (fst (assemble env sec a h)) x k = rd h x k"
proof -
  let ?h4 = "resolve_url sec a h"
  let ?h5 = "init_headers a ?h4"
  let ?h6 = "basic_auth_header env a ?h5"
  let ?hs = "default_headers env a ?h4"
  have m: "map_of ?hs k = None"
    using k by (simp add: default_headers_map_of)
  have "rd (fst (assemble env sec a h)) x k = rd (fill_headers a ?hs ?h6) x k"
    using k by (simp add: assemble_heap rd_wr)
  also have "\<dots> = rd ?h6 x k"
    by (simp add: fill_headers_rd [OF default_headers_keys] m)
  also have "\<dots> = rd ?h5 x k"
    using k by (simp add: basic_auth_header_rd)
  also have "\<dots> = rd ?h4 x k"
    using x k by (simp add: rd_init_headers_frame nxt_resolve_url)
  also have "\<dots> = rd h x k"
    using k by (simp add: resolve_url_rd)
  finally show ?thesis .
qed

section \<open>The path of the configuration\<close>

lemma spec_path_slash: "\<exists>s. spec_path p = CHR ''/'' # s"
  by (cases p) (auto simp: spec_path_def neq_Nil_conv)

lemma apply_url_Inr:
  "apply_url env a h = Inr h2 \<Longrightarrow>
     (rd h a ''url'' = Undefined \<or> is_str (rd h a ''url''))
     \<and> rd h2 a ''path'' =
         (case rd h a ''url'' of Str u \<Rightarrow> opt_val (pathname (url_parse env u)) | _ \<Rightarrow> rd h a ''path'')"
  by (cases "rd h a ''url''") (auto simp: apply_url_def Let_def rd_wr)

lemma leading_slash_Inr:
  "leading_slash a h = Inr h3 \<Longrightarrow> is_str (rd h a ''path'') \<or> \<not> truthy (rd h a ''path'')"
  by (cases "rd h a ''path''") (auto simp: leading_slash_def Let_def split: if_splits)

text \<open>The constructor returns on no other input than those of the documented types.\<close>

lemma Client_Inr_typed:
  assumes "Client env h inp sec = Inr r"
  shows "typed_url_path env h inp"
proof (cases inp)
  case (Uri s)
  show ?thesis
    by (cases "pathname (url_parse env s)")
       (simp_all add: typed_url_path_def given_def requested_path_def Uri opt_val_def)
next
  case (Options a)
  from assms obtain h2 h3 where
    u: "apply_url env a h = Inr h2"
    and l: "leading_slash a (default_host_port_path sec a h2) = Inr h3"
    by (auto simp: Client_def Options from_input_def split: sum.splits)
  have p: "rd (default_host_port_path sec a h2) a ''path'' =
           (if truthy (rd h2 a ''path'') then rd h2 a ''path'' else Str ''/'')"
    by (simp add: default_host_port_path_rd)
  have q: "is_str (rd h2 a ''path'') \<or> \<not> truthy (rd h2 a ''path'')"
    using leading_slash_Inr [OF l] unfolding p by (auto split: if_splits)
  show ?thesis
    using apply_url_Inr [OF u] q
    by (auto simp: typed_url_path_def given_def requested_path_def Options)
qed

text \<open>
  C9. For a URI string and for an options object, with or without a path: the
  constructor returns, and the path of the resulting configuration begins with
  \<open>/\<close>. It is \<open>/\<close> when no path was asked for, the path asked for when that
  begins with \<open>/\<close>, and the path asked for behind a \<open>/\<close> otherwise.
\<close>

theorem path_begins_with_slash:
  assumes "allocated h inp" and "typed_url_path env h inp"
  shows "\<exists>h' c s. Client env h inp sec = Inr (h', c)
           \<and> rd h' (options c) ''path'' = Str (CHR ''/'' # s)
           \<and> CHR ''/'' # s = spec_path (requested_path env h inp)"
proof -
  obtain a h3 where
    s: "Client env h inp sec = Inr (assemble env sec a h3)"
      "a < nxt h3"
      "rd h3 a ''path'' = Str (spec_path (requested_path env h inp))"
    by (rule stage1 [OF assms])
  obtain r where r: "spec_path (requested_path env h inp) = CHR ''/'' # r"
    using spec_path_slash by blast
  have o: "options (snd (assemble env sec a h3)) = a"
    by (simp add: assemble_client)
  have p: "rd (fst (assemble env sec a h3)) a ''path'' = rd h3 a ''path''"
    by (rule assemble_frame [OF s(2)]) simp
  show ?thesis
    apply (rule exI [of _ "fst (assemble env sec a h3)"])
    apply (rule exI [of _ "snd (assemble env sec a h3)"])
    apply (rule exI [of _ r])
    by (simp add: s(1) o p s(3) r)
qed

section \<open>The headers of the configuration\<close>

lemma get_prop_cong:
  "(\<And>x. rd h' x k = rd h x k) \<Longrightarrow> get_prop h' v k = get_prop h v k"
  by (cases v) (simp_all add: get_prop_def)

lemma get_prop_live_cong:
  "live h v \<Longrightarrow> (\<And>x. x < nxt h \<Longrightarrow> rd h' x k = rd h x k) \<Longrightarrow> get_prop h' v k = get_prop h v k"
  by (cases v) (simp_all add: get_prop_def live_def)

lemma get_prop_not_ref: "\<not> truthy v \<Longrightarrow> get_prop h v k = Undefined"
  by (cases v) (simp_all add: get_prop_def)

text \<open>The heap before the default headers are filled in (lines 62--95).\<close>

lemma before_fill_given:
  assumes hv: "rd h a ''headers'' = Ref b"
  shows "rd (basic_auth_header env a (init_headers a (resolve_url sec a h))) x k =
     (if nullish (rd h b ''Authorization'')
         \<and> \<not> nullish (rd h a ''basic_auth'')
         \<and> \<not> nullish (get_prop h (rd h a ''basic_auth'') ''user'')
         \<and> \<not> nullish (get_prop h (rd h a ''basic_auth'') ''pass'')
         \<and> x = b \<and> k = ''Authorization''
      then Str (''Basic '' @ base64 env
                  (to_string (get_prop h (rd h a ''basic_auth'') ''user'') @ '':''
                   @ to_string (get_prop h (rd h a ''basic_auth'') ''pass'')))
      else rd (resolve_url sec a h) x k)"
proof -
  let ?h4 = "resolve_url sec a h"
  let ?h5 = "init_headers a ?h4"
  have t: "truthy (rd ?h4 a ''headers'')"
    by (simp add: resolve_url_rd hv)
  have r5: "\<And>x k. rd ?h5 x k = rd ?h4 x k"
    by (rule init_headers_truthy(1) [OF t])
  have r4: "\<And>x k. k \<notin> {''url'', ''gzip'', ''keepAlive''} \<Longrightarrow> rd ?h5 x k = rd h x k"
    by (simp add: r5 resolve_url_rd)
  have g: "\<And>v k. k \<notin> {''url'', ''gzip'', ''keepAlive''} \<Longrightarrow> get_prop ?h5 v k = get_prop h v k"
    by (rule get_prop_cong) (simp add: r4)
  have b5: "rd ?h5 a ''basic_auth'' = rd h a ''basic_auth''"
    by (simp add: r4)
  have h5: "rd ?h5 a ''headers'' = Ref b"
    by (simp add: r4 hv)
  have au: "get_prop ?h5 (Ref b) ''Authorization'' = rd h b ''Authorization''"
    by (simp add: get_prop_Ref r4)
  have step: "rd (basic_auth_header env a ?h5) x k =
     (if nullish (rd h b ''Authorization'')
         \<and> \<not> nullish (rd h a ''basic_auth'')
         \<and> \<not> nullish (get_prop h (rd h a ''basic_auth'') ''user'')
         \<and> \<not> nullish (get_prop h (rd h a ''basic_auth'') ''pass'')
         \<and> b = x \<and> k = ''Authorization''
      then Str (''Basic '' @ base64 env
                  (to_string (get_prop h (rd h a ''basic_auth'') ''user'') @ '':''
                   @ to_string (get_prop h (rd h a ''basic_auth'') ''pass'')))
      else rd ?h5 x k)"
    by (auto simp: basic_auth_header_rd h5 b5 au g)
  show ?thesis
    unfolding step by (auto simp: r5)
qed

lemma before_fill_fresh:
  assumes hv: "\<not> truthy (rd h a ''headers'')"
    and a: "a < nxt h"
    and ba: "live h (rd h a ''basic_auth'')"
  shows "rd (basic_auth_header env a (init_headers a (resolve_url sec a h))) x k =
     (if x = nxt h then
        (if \<not> nullish (rd h a ''basic_auth'')
            \<and> \<not> nullish (get_prop h (rd h a ''basic_auth'') ''user'')
            \<and> \<not> nullish (get_prop h (rd h a ''basic_auth'') ''pass'')
            \<and> k = ''Authorization''
         then Str (''Basic '' @ base64 env
                  (to_string (get_prop h (rd h a ''basic_auth'') ''user'') @ '':''
                   @ to_string (get_prop h (rd h a ''basic_auth'') ''pass'')))
         else Undefined)
      else if x = a \<and> k = ''headers'' then Ref (nxt h)
      else rd (resolve_url sec a h) x k)"
proof -
  let ?h4 = "resolve_url sec a h"
  let ?h5 = "init_headers a ?h4"
  have f: "\<not> truthy (rd ?h4 a ''headers'')"
    by (simp add: resolve_url_rd hv)
  have ne: "a \<noteq> nxt ?h4"
    using a by (simp add: nxt_resolve_url)
  have r5: "\<And>x k. rd ?h5 x k =
          (if x = a \<and> k = ''headers'' then Ref (nxt h)
           else if x = nxt h then Undefined else rd ?h4 x k)"
    using init_headers_falsy(1) [OF f ne] by (simp add: nxt_resolve_url)
  have r4: "\<And>x k. k \<notin> {''url'', ''gzip'', ''keepAlive'', ''headers''} \<Longrightarrow> x < nxt h \<Longrightarrow> rd ?h5 x k = rd h x k"
    by (simp add: r5 resolve_url_rd)
  have g: "\<And>k. k \<notin> {''url'', ''gzip'', ''keepAlive'', ''headers''} \<Longrightarrow>
             get_prop ?h5 (rd h a ''basic_auth'') k = get_prop h (rd h a ''basic_auth'') k"
    by (rule get_prop_live_cong [OF ba]) (simp add: r4)
  have b5: "rd ?h5 a ''basic_auth'' = rd h a ''basic_auth''"
    using a by (simp add: r4)
  have h5: "rd ?h5 a ''headers'' = Ref (nxt h)"
    by (simp add: r5)
  have au: "get_prop ?h5 (Ref (nxt h)) ''Authorization'' = Undefined"
    using a by (simp add: get_prop_Ref r5)
  have step: "rd (basic_auth_header env a ?h5) x k =
     (if \<not> nullish (rd h a ''basic_auth'')
         \<and> \<not> nullish (get_prop h (rd h a ''basic_auth'') ''user'')
         \<and> \<not> nullish (get_prop h (rd h a ''basic_auth'') ''pass'')
         \<and> nxt h = x \<and> k = ''Authorization''
      then Str (''Basic '' @ base64 env
                  (to_string (get_prop h (rd h a ''basic_auth'') ''user'') @ '':''
                   @ to_string (get_prop h (rd h a ''basic_auth'') ''pass'')))
      else rd ?h5 x k)"
    by (simp add: basic_auth_header_rd h5 b5 au g)
  show ?thesis
    unfolding step using a by (auto simp: r5)
qed

lemma get_prop_prim:
  "get_prop h Undefined k = Undefined" "get_prop h Null k = Undefined"
  "get_prop h (Bool t) k = Undefined" "get_prop h (Num n) k = Undefined"
  "get_prop h NaN k = Undefined" "get_prop h (Str s) k = Undefined"
  by (simp_all add: get_prop_def)

lemma assemble_rd:
  "rd (fst (assemble env sec a h)) x k =
     (if x = a \<and> k = ''method'' then Str ''POST''
      else case map_of (default_headers env a (resolve_url sec a h)) k of
             Some v \<Rightarrow>
               if rd (basic_auth_header env a (init_headers a (resolve_url sec a h))) a ''headers'' = Ref x
                  \<and> rd (basic_auth_header env a (init_headers a (resolve_url sec a h))) x k = Undefined
               then v
               else rd (basic_auth_header env a (init_headers a (resolve_url sec a h))) x k
           | None \<Rightarrow> rd (basic_auth_header env a (init_headers a (resolve_url sec a h))) x k)"
  by (simp add: assemble_heap rd_wr fill_headers_rd [OF default_headers_keys])

lemma nxt_assemble:
  "nxt (fst (assemble env sec a h)) = (if truthy (rd h a ''headers'') then nxt h else Suc (nxt h))"
  by (simp add: assemble_heap nxt_wr nxt_fill_headers nxt_basic_auth_header init_headers_def
      split_def Let_def nxt_alloc nxt_resolve_url resolve_url_rd)

lemma assemble_Authorization:
  assumes a: "a < nxt h"
    and hv: "is_ref (rd h a ''headers'') \<or> \<not> truthy (rd h a ''headers'')"
    and ba: "live h (rd h a ''basic_auth'')"
  shows "\<exists>b. rd (fst (assemble env sec a h)) a ''headers'' = Ref b
     \<and> b = (case rd h a ''headers'' of Ref b0 \<Rightarrow> b0 | _ \<Rightarrow> nxt h)
     \<and> rd (fst (assemble env sec a h)) b ''Authorization'' =
         spec_Authorization env h (rd h a ''headers'') (rd h a ''basic_auth'')"
proof (cases "rd h a ''headers''")
  case (Ref b)
  show ?thesis
    by (simp add: assemble_rd default_headers_map_of before_fill_given [OF Ref] Ref resolve_url_rd
        spec_Authorization_def get_prop_Ref)
next
  case Undefined
  then have f: "\<not> truthy (rd h a ''headers'')" by simp
  show ?thesis using a
    by (simp add: assemble_rd default_headers_map_of before_fill_fresh [OF f a ba] resolve_url_rd
        spec_Authorization_def get_prop_prim Undefined)
next
  case Null
  then have f: "\<not> truthy (rd h a ''headers'')" by simp
  show ?thesis using a
    by (simp add: assemble_rd default_headers_map_of before_fill_fresh [OF f a ba] resolve_url_rd
        spec_Authorization_def get_prop_prim Null)
next
  case (Bool t)
  then have f: "\<not> truthy (rd h a ''headers'')" using hv by simp
  show ?thesis using a
    by (simp add: assemble_rd default_headers_map_of before_fill_fresh [OF f a ba] resolve_url_rd
        spec_Authorization_def get_prop_prim Bool)
next
  case (Num n)
  then have f: "\<not> truthy (rd h a ''headers'')" using hv by simp
  show ?thesis using a
    by (simp add: assemble_rd default_headers_map_of before_fill_fresh [OF f a ba] resolve_url_rd
        spec_Authorization_def get_prop_prim Num)
next
  case NaN
  then have f: "\<not> truthy (rd h a ''headers'')" by simp
  show ?thesis using a
    by (simp add: assemble_rd default_headers_map_of before_fill_fresh [OF f a ba] resolve_url_rd
        spec_Authorization_def get_prop_prim NaN)
next
  case (Str s)
  then have f: "\<not> truthy (rd h a ''headers'')" using hv by simp
  show ?thesis using a
    by (simp add: assemble_rd default_headers_map_of before_fill_fresh [OF f a ba] resolve_url_rd
        spec_Authorization_def get_prop_prim Str)
qed

section \<open>Basic authentication and the cookie accessors\<close>

lemma live_mono: "live h v \<Longrightarrow> nxt h \<le> nxt h' \<Longrightarrow> live h' v"
  by (cases v) (simp_all add: live_def)

lemma spec_Authorization_cong:
  assumes "live h hv" "live h ba"
    and "\<forall>x k. x < nxt h \<and> (x \<noteq> a \<or> k \<notin> {''host'', ''path'', ''port''}) \<longrightarrow> rd h3 x k = rd h x k"
  shows "spec_Authorization env h3 hv ba = spec_Authorization env h hv ba"
proof -
  have 1: "get_prop h3 hv ''Authorization'' = get_prop h hv ''Authorization''"
    by (rule get_prop_live_cong [OF assms(1)]) (simp add: assms(3))
  have 2: "get_prop h3 ba ''user'' = get_prop h ba ''user''"
    by (rule get_prop_live_cong [OF assms(2)]) (simp add: assms(3))
  have 3: "get_prop h3 ba ''pass'' = get_prop h ba ''pass''"
    by (rule get_prop_live_cong [OF assms(2)]) (simp add: assms(3))
  show ?thesis
    by (simp add: spec_Authorization_def 1 2 3)
qed

text \<open>
  C8. For every constructor input of the documented types, the \<^verbatim>\<open>Authorization\<close>
  header of the resulting configuration is \<^verbatim>\<open>Basic\<close> followed by the base64 of
  \<^verbatim>\<open>user:pass\<close> exactly when \<^verbatim>\<open>basic_auth.user\<close> and \<^verbatim>\<open>basic_auth.pass\<close> are both
  present (not \<^verbatim>\<open>null\<close>, not \<^verbatim>\<open>undefined\<close>) and the caller gave no
  \<^verbatim>\<open>Authorization\<close> header; otherwise it is the caller's header, untouched.
\<close>

theorem basic_auth_synthesized:
  assumes al: "allocated h inp" and ty: "typed_url_path env h inp" and th: "typed_headers h inp"
  shows "\<exists>h' c b. Client env h inp sec = Inr (h', c)
           \<and> rd h' (options c) ''headers'' = Ref b
           \<and> rd h' b ''Authorization'' =
               spec_Authorization env h (given h inp ''headers'') (given h inp ''basic_auth'')"
proof -
  obtain a h3 where
    s: "Client env h inp sec = Inr (assemble env sec a h3)"
      "nxt h3 = (case inp of Uri s \<Rightarrow> Suc (nxt h) | Options b \<Rightarrow> nxt h)"
      "a < nxt h3"
      "\<forall>k. k \<notin> {''port'', ''hostname'', ''pathname'', ''host'', ''path''} \<longrightarrow> rd h3 a k = given h inp k"
      "\<forall>x k. x < nxt h \<and> (x \<noteq> a \<or> k \<notin> {''host'', ''path'', ''port''}) \<longrightarrow> rd h3 x k = rd h x k"
    by (rule stage1 [OF al ty])
  have le: "nxt h \<le> nxt h3"
    by (cases inp) (simp_all add: s(2))
  have hv: "rd h3 a ''headers'' = given h inp ''headers''"
    using s(4) by simp
  have ba: "rd h3 a ''basic_auth'' = given h inp ''basic_auth''"
    using s(4) by simp
  have t1: "is_ref (rd h3 a ''headers'') \<or> \<not> truthy (rd h3 a ''headers'')"
    using th by (simp add: typed_headers_def hv)
  have l1: "live h (given h inp ''headers'')" and l2: "live h (given h inp ''basic_auth'')"
    using th by (simp_all add: typed_headers_def)
  have t2: "live h3 (rd h3 a ''basic_auth'')"
    using live_mono [OF l2 le] by (simp add: ba)
  from assemble_Authorization [OF s(3) t1 t2, of env sec] obtain b where
    b: "rd (fst (assemble env sec a h3)) a ''headers'' = Ref b"
      "rd (fst (assemble env sec a h3)) b ''Authorization'' =
         spec_Authorization env h3 (rd h3 a ''headers'') (rd h3 a ''basic_auth'')"
    by auto
  have o: "options (snd (assemble env sec a h3)) = a"
    by (simp add: assemble_client)
  have e: "spec_Authorization env h3 (given h inp ''headers'') (given h inp ''basic_auth'') =
           spec_Authorization env h (given h inp ''headers'') (given h inp ''basic_auth'')"
    by (rule spec_Authorization_cong [OF l1 l2 s(5)])
  show ?thesis
    apply (rule exI [of _ "fst (assemble env sec a h3)"])
    apply (rule exI [of _ "snd (assemble env sec a h3)"])
    apply (rule exI [of _ b])
    using b by (simp add: s(1) o hv ba e)
qed

text \<open>
  C7. A client constructed without cookie support: \<^verbatim>\<open>getCookie\<close> and
  \<^verbatim>\<open>setCookie\<close> throw the configuration error, and do nothing else (neither
  touches a request). A client constructed with cookie support: both go on to
  the jar.
\<close>

theorem cookie_accessors:
  assumes al: "allocated h inp" and ty: "typed_url_path env h inp"
  shows "\<exists>h' c. Client env h inp sec = Inr (h', c)
           \<and> (if truthy (given h inp ''cookies'')
               then getCookie env c name = Inr (Cookies_get env (new_Cookies env) name)
                  \<and> setCookie env c name v =
                      Inr (c\<lparr>cookies := Some (Cookies_set env (new_Cookies env) name v)\<rparr>)
               else getCookie env c name =
                      Inl (ConfigurationError ''Cookies support is not turned on for this client instance'')
                  \<and> setCookie env c name v =
                      Inl (ConfigurationError ''Cookies support is not turned on for this client instance''))"
proof -
  obtain a h3 where
    s: "Client env h inp sec = Inr (assemble env sec a h3)"
      "a < nxt h3"
      "\<forall>k. k \<notin> {''port'', ''hostname'', ''pathname'', ''host'', ''path''} \<longrightarrow> rd h3 a k = given h inp k"
    by (rule stage1 [OF al ty])
  have c3: "rd h3 a ''cookies'' = given h inp ''cookies''"
    using s(3) by simp
  have c: "rd (fst (assemble env sec a h3)) a ''cookies'' = given h inp ''cookies''"
    unfolding c3 [symmetric] by (rule assemble_frame [OF s(2)]) simp
  have k: "cookies (snd (assemble env sec a h3)) =
           (if truthy (given h inp ''cookies'') then Some (new_Cookies env) else None)"
    by (subst assemble_client) (simp add: c)
  show ?thesis
    apply (rule exI [of _ "fst (assemble env sec a h3)"])
    apply (rule exI [of _ "snd (assemble env sec a h3)"])
    by (simp add: s(1) getCookie_def setCookie_def k)
qed

section \<open>The constructor works on the caller's object\<close>

lemma assemble_plain:
  assumes x: "x < nxt h"
    and k: "k \<notin> {''headers'', ''method'', ''Authorization'',
               ''User-Agent'', ''Content-Type'', ''Accept'', ''Accept-Charset'', ''Connection'',
               ''Accept-Encoding'', ''Content-Encoding''}"
  shows "rd (fst (assemble env sec a h)) x k = rd (resolve_url sec a h) x k"
proof -
  let ?h4 = "resolve_url sec a h"
  let ?h5 = "init_headers a ?h4"
  let ?h6 = "basic_auth_header env a ?h5"
  let ?hs = "default_headers env a ?h4"
  have m: "map_of ?hs k = None"
    using k by (simp add: default_headers_map_of)
  have "rd (fst (assemble env sec a h)) x k = rd (fill_headers a ?hs ?h6) x k"
    using k by (simp add: assemble_heap rd_wr)
  also have "\<dots> = rd ?h6 x k"
    by (simp add: fill_headers_rd [OF default_headers_keys] m)
  also have "\<dots> = rd ?h5 x k"
    using k by (simp add: basic_auth_header_rd)
  also have "\<dots> = rd ?h4 x k"
    using x k by (simp add: rd_init_headers_frame nxt_resolve_url)
  finally show ?thesis .
qed

lemma default_headers_cong:
  "rd h' a ''userAgent'' = rd h a ''userAgent'' \<Longrightarrow> rd h' a ''gzip'' = rd h a ''gzip''
   \<Longrightarrow> default_headers env a h' = default_headers env a h"
  by (simp add: default_headers_def)

lemma default_key:
  "map_of (default_headers env a h) k = Some v \<Longrightarrow>
     k \<in> {''User-Agent'', ''Content-Type'', ''Accept'', ''Accept-Charset'', ''Connection'',
           ''Accept-Encoding'', ''Content-Encoding''}"
  by (simp add: default_headers_map_of split: if_splits)

lemma not_truthy_case:
  "\<not> truthy v \<Longrightarrow> (case v of Ref b0 \<Rightarrow> f b0 | _ \<Rightarrow> c) = c"
  by (cases v) simp_all

lemma ref_or_falsy:
  assumes "is_ref v \<or> \<not> truthy v"
  obtains b where "v = Ref b" | "\<not> truthy v"
  using assms by (cases v) auto

lemma assemble_defaults:
  assumes a: "a < nxt h"
    and hv: "is_ref (rd h a ''headers'') \<or> \<not> truthy (rd h a ''headers'')"
    and ba: "live h (rd h a ''basic_auth'')"
    and m: "map_of (default_headers env a (resolve_url sec a h)) k = Some v"
  shows "rd (fst (assemble env sec a h)) (case rd h a ''headers'' of Ref b0 \<Rightarrow> b0 | _ \<Rightarrow> nxt h) k =
           (if get_prop h (rd h a ''headers'') k = Undefined then v
            else get_prop h (rd h a ''headers'') k)"
proof -
  have k: "k \<in> {''User-Agent'', ''Content-Type'', ''Accept'', ''Accept-Charset'', ''Connection'',
           ''Accept-Encoding'', ''Content-Encoding''}"
    by (rule default_key [OF m])
  from hv show ?thesis
  proof (cases rule: ref_or_falsy)
    case (1 b)
    have r: "\<And>x. rd (basic_auth_header env a (init_headers a (resolve_url sec a h))) x k = rd h x k"
      using k by (auto simp: before_fill_given [OF 1] resolve_url_rd)
    have hd: "rd (basic_auth_header env a (init_headers a (resolve_url sec a h))) a ''headers'' = Ref b"
      by (simp add: before_fill_given [OF 1] resolve_url_rd 1)
    show ?thesis
      using k by (auto simp: assemble_rd m r hd 1 get_prop_Ref)
  next
    case 2
    have r: "rd (basic_auth_header env a (init_headers a (resolve_url sec a h))) (nxt h) k = Undefined"
      using k by (auto simp: before_fill_fresh [OF 2 a ba])
    have hd: "rd (basic_auth_header env a (init_headers a (resolve_url sec a h))) a ''headers'' = Ref (nxt h)"
      using a by (simp add: before_fill_fresh [OF 2 a ba])
    show ?thesis
      using k a by (auto simp: assemble_rd m r hd not_truthy_case [OF 2] get_prop_not_ref [OF 2])
  qed
qed

lemma assemble_others:
  assumes a: "a < nxt h"
    and hv: "is_ref (rd h a ''headers'') \<or> \<not> truthy (rd h a ''headers'')"
    and ba: "live h (rd h a ''basic_auth'')"
    and x: "x < nxt h" "x \<noteq> a" "x \<noteq> (case rd h a ''headers'' of Ref b0 \<Rightarrow> b0 | _ \<Rightarrow> nxt h)"
  shows "rd (fst (assemble env sec a h)) x k = rd h x k"
proof -
  from hv show ?thesis
  proof (cases rule: ref_or_falsy)
    case (1 b)
    have xb: "x \<noteq> b" using x(3) by (simp add: 1)
    have r: "rd (basic_auth_header env a (init_headers a (resolve_url sec a h))) x k = rd h x k"
      using xb x(2) by (simp add: before_fill_given [OF 1] resolve_url_rd)
    have hd: "rd (basic_auth_header env a (init_headers a (resolve_url sec a h))) a ''headers'' = Ref b"
      by (simp add: before_fill_given [OF 1] resolve_url_rd 1)
    show ?thesis
      using xb x(2) by (simp add: assemble_rd r hd split: option.splits)
  next
    case 2
    have r: "rd (basic_auth_header env a (init_headers a (resolve_url sec a h))) x k = rd h x k"
      using x by (simp add: before_fill_fresh [OF 2 a ba] resolve_url_rd)
    have hd: "rd (basic_auth_header env a (init_headers a (resolve_url sec a h))) a ''headers'' = Ref (nxt h)"
      using a by (simp add: before_fill_fresh [OF 2 a ba])
    show ?thesis
      using x by (simp add: assemble_rd r hd split: option.splits)
  qed
qed

lemma default_headers_resolve:
  "default_headers env a (resolve_url sec a h) = default_headers env a h"
  by (auto simp: default_headers_def resolve_url_rd js_or_def Let_def)

text \<open>
  C10. For an options object, the client keeps the caller's reference, and the
  constructor has written to that very object: host, port and path filled in,
  \<^verbatim>\<open>keepAlive\<close> and \<^verbatim>\<open>gzip\<close> defaulted, \<^verbatim>\<open>url\<close> overwritten with the resolved
  URL, \<^verbatim>\<open>method\<close> set to \<^verbatim>\<open>POST\<close>. Its \<^verbatim>\<open>headers\<close> is the caller's header
  object when there was one (a new object otherwise), now holding the
  \<^verbatim>\<open>Authorization\<close> entry and every default the caller had not set. No other
  object of the heap has changed, and no copy of the options was allocated.
\<close>

theorem constructor_mutates_options:
  assumes al: "allocated h (Options a)"
    and ty: "typed_url_path env h (Options a)"
    and th: "typed_headers h (Options a)"
  shows "\<exists>h' c b. Client env h (Options a) sec = Inr (h', c)
    \<and> options c = a
    \<and> rd h' a ''host'' = js_or (requested_host env h (Options a)) (Str ''localhost'')
    \<and> rd h' a ''port'' = js_or (requested_port env h (Options a)) (Num (if sec then 443 else 80))
    \<and> rd h' a ''path'' = Str (spec_path (requested_path env h (Options a)))
    \<and> rd h' a ''keepAlive'' = js_or (rd h a ''keepAlive'') (Num 0)
    \<and> rd h' a ''gzip'' = js_or (rd h a ''gzip'') (Bool False)
    \<and> rd h' a ''url'' =
          Str ((if sec then ''https://'' else ''http://'') @ to_string (rd h' a ''host'') @ '':''
               @ to_string (rd h' a ''port'') @ to_string (rd h' a ''path''))
    \<and> rd h' a ''method'' = Str ''POST''
    \<and> rd h' a ''headers'' = Ref b
    \<and> b = (case rd h a ''headers'' of Ref b0 \<Rightarrow> b0 | _ \<Rightarrow> nxt h)
    \<and> rd h' b ''Authorization'' = spec_Authorization env h (rd h a ''headers'') (rd h a ''basic_auth'')
    \<and> (\<forall>(k, v) \<in> set (default_headers env a h).
          rd h' b k = (if get_prop h (rd h a ''headers'') k = Undefined then v
                       else get_prop h (rd h a ''headers'') k))
    \<and> nxt h' = (if truthy (rd h a ''headers'') then nxt h else Suc (nxt h))
    \<and> (\<forall>x k. x < nxt h \<and> x \<noteq> a \<and> x \<noteq> b \<longrightarrow> rd h' x k = rd h x k)"
proof -
  obtain a' h3 where
    s: "Client env h (Options a) sec = Inr (assemble env sec a' h3)"
      "a' = (case Options a of Uri s \<Rightarrow> nxt h | Options b \<Rightarrow> b)"
      "nxt h3 = (case Options a of Uri s \<Rightarrow> Suc (nxt h) | Options b \<Rightarrow> nxt h)"
      "a' < nxt h3"
      "rd h3 a' ''path'' = Str (spec_path (requested_path env h (Options a)))"
      "rd h3 a' ''host'' = js_or (requested_host env h (Options a)) (Str ''localhost'')"
      "rd h3 a' ''port'' = js_or (requested_port env h (Options a)) (Num (if sec then 443 else 80))"
      "\<forall>k. k \<notin> {''port'', ''hostname'', ''pathname'', ''host'', ''path''} \<longrightarrow> rd h3 a' k = given h (Options a) k"
      "\<forall>x k. x < nxt h \<and> (x \<noteq> a' \<or> k \<notin> {''host'', ''path'', ''port''}) \<longrightarrow> rd h3 x k = rd h x k"
    by (rule stage1 [OF al ty])
  have a': "a' = a" using s(2) by simp
  have n3: "nxt h3 = nxt h" using s(3) by simp
  have lt: "a < nxt h3" using s(4) by (simp add: a')
  let ?H = "fst (assemble env sec a h3)"
  let ?c = "snd (assemble env sec a h3)"
  let ?b = "case rd h a ''headers'' of Ref b0 \<Rightarrow> b0 | _ \<Rightarrow> nxt h"
  have g: "\<And>k. k \<notin> {''port'', ''hostname'', ''pathname'', ''host'', ''path''} \<Longrightarrow> rd h3 a k = rd h a k"
    using s(8) by (simp add: a' given_def)
  have hv: "rd h3 a ''headers'' = rd h a ''headers''" by (simp add: g)
  have ba: "rd h3 a ''basic_auth'' = rd h a ''basic_auth''" by (simp add: g)
  have l1: "live h (rd h a ''headers'')" and l2: "live h (rd h a ''basic_auth'')"
    and ir: "is_ref (rd h a ''headers'') \<or> \<not> truthy (rd h a ''headers'')"
    using th by (simp_all add: typed_headers_def given_def)
  have t1: "is_ref (rd h3 a ''headers'') \<or> \<not> truthy (rd h3 a ''headers'')"
    using ir by (simp add: hv)
  have t2: "live h3 (rd h3 a ''basic_auth'')"
    using live_mono [OF l2, of h3] by (simp add: ba n3)
  have c1: "Client env h (Options a) sec = Inr (?H, ?c)"
    using s(1) by (simp add: a')
  have c2: "options ?c = a"
    by (simp add: assemble_client)
  have host: "rd ?H a ''host'' = js_or (requested_host env h (Options a)) (Str ''localhost'')"
    using s(6) by (simp add: assemble_plain [OF lt] resolve_url_rd a')
  have port: "rd ?H a ''port'' = js_or (requested_port env h (Options a)) (Num (if sec then 443 else 80))"
    using s(7) by (simp add: assemble_plain [OF lt] resolve_url_rd a')
  have path: "rd ?H a ''path'' = Str (spec_path (requested_path env h (Options a)))"
    using s(5) by (simp add: assemble_plain [OF lt] resolve_url_rd a')
  have keep: "rd ?H a ''keepAlive'' = js_or (rd h a ''keepAlive'') (Num 0)"
    by (simp add: assemble_plain [OF lt] resolve_url_rd g)
  have gzip: "rd ?H a ''gzip'' = js_or (rd h a ''gzip'') (Bool False)"
    by (simp add: assemble_plain [OF lt] resolve_url_rd g)
  have url3: "rd ?H a ''url'' =
          Str ((if sec then ''https://'' else ''http://'') @ to_string (rd h3 a ''host'') @ '':''
               @ to_string (rd h3 a ''port'') @ spec_path (requested_path env h (Options a)))"
    using s(5) by (simp add: assemble_plain [OF lt] resolve_url_rd a')
  have url: "rd ?H a ''url'' =
          Str ((if sec then ''https://'' else ''http://'') @ to_string (rd ?H a ''host'') @ '':''
               @ to_string (rd ?H a ''port'') @ to_string (rd ?H a ''path''))"
    unfolding url3 host port path using s(6) s(7) by (simp add: a')
  have meth: "rd ?H a ''method'' = Str ''POST''"
    by (simp add: assemble_rd)
  from assemble_Authorization [OF lt t1 t2, of env sec, unfolded hv ba n3]
  have hd: "rd ?H a ''headers'' = Ref ?b"
    and au3: "rd ?H ?b ''Authorization'' = spec_Authorization env h3 (rd h a ''headers'') (rd h a ''basic_auth'')"
    by auto
  have au: "rd ?H ?b ''Authorization'' = spec_Authorization env h (rd h a ''headers'') (rd h a ''basic_auth'')"
    unfolding au3 using s(9) by (intro spec_Authorization_cong [OF l1 l2, of a']) simp
  have gp: "\<And>k. k \<notin> {''host'', ''path'', ''port''} \<Longrightarrow>
              get_prop h3 (rd h a ''headers'') k = get_prop h (rd h a ''headers'') k"
    by (rule get_prop_live_cong [OF l1]) (use s(9) in simp)
  have dh: "default_headers env a (resolve_url sec a h3) = default_headers env a h"
    unfolding default_headers_resolve by (rule default_headers_cong) (simp_all add: g)
  have defs: "\<forall>(k, v) \<in> set (default_headers env a h).
          rd ?H ?b k = (if get_prop h (rd h a ''headers'') k = Undefined then v
                       else get_prop h (rd h a ''headers'') k)"
  proof (clarify)
    fix k v assume "(k, v) \<in> set (default_headers env a h)"
    then have "(k, v) \<in> set (default_headers env a (resolve_url sec a h3))"
      by (simp add: dh)
    then have m: "map_of (default_headers env a (resolve_url sec a h3)) k = Some v"
      by (simp add: default_headers_keys)
    have k: "k \<notin> {''host'', ''path'', ''port''}"
      using default_key [OF m] by auto
    from assemble_defaults [OF lt t1 t2 m, unfolded hv n3]
    show "rd ?H ?b k = (if get_prop h (rd h a ''headers'') k = Undefined then v
                       else get_prop h (rd h a ''headers'') k)"
      by (simp add: gp [OF k])
  qed
  have nx: "nxt ?H = (if truthy (rd h a ''headers'') then nxt h else Suc (nxt h))"
    by (simp add: nxt_assemble hv n3)
  have fr: "\<forall>x k. x < nxt h \<and> x \<noteq> a \<and> x \<noteq> ?b \<longrightarrow> rd ?H x k = rd h x k"
  proof (intro allI impI)
    fix x k assume x: "x < nxt h \<and> x \<noteq> a \<and> x \<noteq> ?b"
    have "rd ?H x k = rd h3 x k"
      by (rule assemble_others [OF lt t1 t2]) (use x in \<open>simp_all add: n3\<close>, simp add: hv n3 cong: val.case_cong)
    also have "\<dots> = rd h x k"
      using s(9) x by (simp add: a')
    finally show "rd ?H x k = rd h x k" .
  qed
  show ?thesis
    apply (rule exI [of _ ?H], rule exI [of _ ?c], rule exI [of _ ?b])
    apply (intro conjI)
    apply (rule c1 c2 host port path keep gzip url meth hd refl au defs nx fr)+
    done
qed

section \<open>Concrete constructions\<close>

lemma rd_heap_of: "rd (heap_of obs) x k = (if x < length obs then lookup (obs ! x) k else Undefined)"
  by (simp add: rd_def heap_of_def)

lemma nxt_heap_of: "nxt (heap_of obs) = length obs"
  by (simp add: heap_of_def)

theorem cookie_accessors_witness:
  "allocated (heap_of [[(''host'', Str ''h'')]]) (Options 0)
   \<and> typed_url_path node (heap_of [[(''host'', Str ''h'')]]) (Options 0)
   \<and> (\<exists>h' c. Client node (heap_of [[(''host'', Str ''h'')]]) (Options 0) False = Inr (h', c)
         \<and> getCookie node c ''a'' =
             Inl (ConfigurationError ''Cookies support is not turned on for this client instance'')
         \<and> setCookie node c ''a'' (Str ''1'') =
             Inl (ConfigurationError ''Cookies support is not turned on for this client instance''))
   \<and> allocated (heap_of [[(''cookies'', Bool True)]]) (Options 0)
   \<and> typed_url_path node (heap_of [[(''cookies'', Bool True)]]) (Options 0)
   \<and> (\<exists>h' c. Client node (heap_of [[(''cookies'', Bool True)]]) (Options 0) False = Inr (h', c)
         \<and> getCookie node c ''a'' = Inr Undefined
         \<and> setCookie node c ''a'' (Str ''1'') = Inr (c\<lparr>cookies := Some [(''a'', Str ''1'')]\<rparr>))"
proof -
  let ?h = "heap_of [[(''host'', Str ''h'')]]"
  let ?g = "heap_of [[(''cookies'', Bool True)]]"
  have a: "allocated ?h (Options 0)" and b: "allocated ?g (Options 0)"
    by (simp_all add: allocated_def nxt_heap_of)
  have t: "typed_url_path node ?h (Options 0)" and u: "typed_url_path node ?g (Options 0)"
    by (simp_all add: typed_url_path_def given_def requested_path_def rd_heap_of)
  show ?thesis
    using a b t u
      cookie_accessors [OF a t, of False "''a''" "Str ''1''"]
      cookie_accessors [OF b u, of False "''a''" "Str ''1''"]
    by (simp add: given_def rd_heap_of node_def jar_get_def jar_set_def)
qed

lemma base64_user_pass: "node_base64 ''user:pass'' = ''dXNlcjpwYXNz''"
  by code_simp

theorem basic_auth_synthesized_witness:
  "allocated (heap_of [[(''host'', Str ''h''), (''basic_auth'', Ref 1)],
                       [(''user'', Str ''user''), (''pass'', Str ''pass'')]]) (Options 0)
   \<and> typed_url_path node (heap_of [[(''host'', Str ''h''), (''basic_auth'', Ref 1)],
                       [(''user'', Str ''user''), (''pass'', Str ''pass'')]]) (Options 0)
   \<and> typed_headers (heap_of [[(''host'', Str ''h''), (''basic_auth'', Ref 1)],
                       [(''user'', Str ''user''), (''pass'', Str ''pass'')]]) (Options 0)
   \<and> (\<exists>h' c b. Client node (heap_of [[(''host'', Str ''h''), (''basic_auth'', Ref 1)],
                       [(''user'', Str ''user''), (''pass'', Str ''pass'')]]) (Options 0) False = Inr (h', c)
         \<and> rd h' (options c) ''headers'' = Ref b
         \<and> rd h' b ''Authorization'' = Str ''Basic dXNlcjpwYXNz'')"
proof -
  let ?h = "heap_of [[(''host'', Str ''h''), (''basic_auth'', Ref 1)],
                       [(''user'', Str ''user''), (''pass'', Str ''pass'')]]"
  have a: "allocated ?h (Options 0)"
    by (simp add: allocated_def nxt_heap_of)
  have t: "typed_url_path node ?h (Options 0)"
    by (simp add: typed_url_path_def given_def requested_path_def rd_heap_of)
  have th: "typed_headers ?h (Options 0)"
    by (simp add: typed_headers_def given_def rd_heap_of live_def nxt_heap_of)
  have e: "spec_Authorization node ?h (given ?h (Options 0) ''headers'') (given ?h (Options 0) ''basic_auth'')
           = Str ''Basic dXNlcjpwYXNz''"
    by (simp add: spec_Authorization_def given_def rd_heap_of get_prop_def node_def base64_user_pass)
  show ?thesis
    using a t th basic_auth_synthesized [OF a t th, of False, unfolded e] by simp
qed

theorem constructor_mutates_options_witness:
  "allocated (heap_of [[(''host'', Str ''h''), (''path'', Str ''RPC2''), (''headers'', Ref 1)],
                       [(''Accept'', Str ''x'')]]) (Options 0)
   \<and> typed_url_path node (heap_of [[(''host'', Str ''h''), (''path'', Str ''RPC2''), (''headers'', Ref 1)],
                       [(''Accept'', Str ''x'')]]) (Options 0)
   \<and> typed_headers (heap_of [[(''host'', Str ''h''), (''path'', Str ''RPC2''), (''headers'', Ref 1)],
                       [(''Accept'', Str ''x'')]]) (Options 0)
   \<and> (\<exists>h' c. Client node (heap_of [[(''host'', Str ''h''), (''path'', Str ''RPC2''), (''headers'', Ref 1)],
                       [(''Accept'', Str ''x'')]]) (Options 0) False = Inr (h', c)
         \<and> options c = 0
         \<and> rd h' 0 ''host'' = Str ''h''
         \<and> rd h' 0 ''port'' = Num 80
         \<and> rd h' 0 ''path'' = Str ''/RPC2''
         \<and> rd h' 0 ''keepAlive'' = Num 0
         \<and> rd h' 0 ''gzip'' = Bool False
         \<and> rd h' 0 ''url'' = Str ''http://h:80/RPC2''
         \<and> rd h' 0 ''method'' = Str ''POST''
         \<and> rd h' 0 ''headers'' = Ref 1
         \<and> rd h' 1 ''Authorization'' = Undefined
         \<and> rd h' 1 ''Accept'' = Str ''x''
         \<and> rd h' 1 ''Content-Type'' = Str ''text/xml''
         \<and> nxt h' = 2)"
proof -
  let ?h = "heap_of [[(''host'', Str ''h''), (''path'', Str ''RPC2''), (''headers'', Ref 1)],
                       [(''Accept'', Str ''x'')]]"
  have a: "allocated ?h (Options 0)"
    by (simp add: allocated_def nxt_heap_of)
  have t: "typed_url_path node ?h (Options 0)"
    by (simp add: typed_url_path_def given_def requested_path_def rd_heap_of)
  have th: "typed_headers ?h (Options 0)"
    by (simp add: typed_headers_def given_def rd_heap_of live_def nxt_heap_of)
  have d: "digits 80 = ''80''"
    by code_simp
  show ?thesis
    using a t th constructor_mutates_options [OF a t th, of False]
    by (simp add: requested_host_def requested_port_def requested_path_def spec_path_def
        rd_heap_of nxt_heap_of js_or_def spec_Authorization_def get_prop_def
        default_headers_def node_def d numeral_2_eq_2 cong: conj_cong)
      blast
qed

theorem path_begins_with_slash_witness:
  "allocated (heap_of [[(''host'', Str ''h''), (''path'', Str ''RPC2'')]]) (Options 0)
   \<and> typed_url_path node (heap_of [[(''host'', Str ''h''), (''path'', Str ''RPC2'')]]) (Options 0)
   \<and> (\<exists>h' c s. Client node (heap_of [[(''host'', Str ''h''), (''path'', Str ''RPC2'')]]) (Options 0) False
                   = Inr (h', c)
         \<and> rd h' (options c) ''path'' = Str (CHR ''/'' # s) \<and> CHR ''/'' # s = ''/RPC2'')
   \<and> allocated (heap_of []) (Uri ''https://example.com/RPC2'')
   \<and> typed_url_path node (heap_of []) (Uri ''https://example.com/RPC2'')
   \<and> (\<exists>h' c s. Client node (heap_of []) (Uri ''https://example.com/RPC2'') True = Inr (h', c)
         \<and> rd h' (options c) ''path'' = Str (CHR ''/'' # s) \<and> CHR ''/'' # s = ''/RPC2'')
   \<and> allocated (heap_of [[(''port'', Num 9090)]]) (Options 0)
   \<and> typed_url_path node (heap_of [[(''port'', Num 9090)]]) (Options 0)
   \<and> (\<exists>h' c s. Client node (heap_of [[(''port'', Num 9090)]]) (Options 0) False = Inr (h', c)
         \<and> rd h' (options c) ''path'' = Str (CHR ''/'' # s) \<and> CHR ''/'' # s = ''/'')"
proof -
  let ?h = "heap_of [[(''host'', Str ''h''), (''path'', Str ''RPC2'')]]"
  let ?g = "heap_of [[(''port'', Num 9090)]]"
  have a: "allocated ?h (Options 0)" and a2: "allocated (heap_of []) (Uri ''https://example.com/RPC2'')"
    and a3: "allocated ?g (Options 0)"
    by (simp_all add: allocated_def nxt_heap_of)
  have t: "typed_url_path node ?h (Options 0)"
    and t2: "typed_url_path node (heap_of []) (Uri ''https://example.com/RPC2'')"
    and t3: "typed_url_path node ?g (Options 0)"
    by (simp_all add: typed_url_path_def given_def requested_path_def rd_heap_of node_def
        node_url_parse_def opt_val_def)
  have e: "spec_path (requested_path node ?h (Options 0)) = ''/RPC2''"
    and e2: "spec_path (requested_path node (heap_of []) (Uri ''https://example.com/RPC2'')) = ''/RPC2''"
    and e3: "spec_path (requested_path node ?g (Options 0)) = ''/''"
    by (simp_all add: spec_path_def requested_path_def rd_heap_of node_def node_url_parse_def opt_val_def)
  show ?thesis
    using a t a2 t2 a3 t3
      path_begins_with_slash [OF a t, of False]
      path_begins_with_slash [OF a2 t2, of True]
      path_begins_with_slash [OF a3 t3, of False]
    by (simp add: e e2 e3)
qed

section \<open>What methodCall returns\<close>

lemma req_body_fold_set:
  "req_body (fold (\<lambda>key. request_set key (f key)) ks r) = req_body r"
  by (induction ks arbitrary: r) (auto simp: request_set_def)

lemma lookup_request_set:
  "lookup (req_header (request_set field v r)) k = (if k = field then v else lookup (req_header r) k)"
  by (simp add: request_set_def lookup_put)

lemma lookup_fold_set:
  "lookup (req_header (fold (\<lambda>key. request_set key (f key)) ks r)) k
     = (if k \<in> set ks then f k else lookup (req_header r) k)"
  by (induction ks arbitrary: r) (auto simp: lookup_request_set)

lemma lookup_absent: "k \<notin> fst ` set ob \<Longrightarrow> lookup ob k = Undefined"
  by (induction ob) auto

lemma headers_copied:
  "lookup (req_header (fold (\<lambda>key. request_set key (rd h b key)) (map fst (cells h b)) (post u))) k
     = rd h b k"
  by (simp add: lookup_fold_set post_def rd_def lookup_absent)

lemma both_iff: "(truthy g \<and> g = Str ''both'') = (g = Str ''both'')"
  by auto

lemma methodCall_Inr:
  "methodCall env h this m ps = Inr (h1, cl) \<longleftrightarrow>
     (\<exists>xml b.
        serializeMethodCall env m ps (rd h (options this) ''encoding'') = Inr xml
      \<and> h1 = composeRequest env this (rd h (options this) ''headers'') h
      \<and> rd h1 (options this) ''headers'' = Ref b
      \<and> cl = \<lparr>request =
                 (if rd h1 (options this) ''gzip'' = Str ''both''
                  then fold (\<lambda>key. request_set key (rd h1 b key)) (map fst (cells h1 b))
                         (post (rd h1 (options this) ''url''))
                  else request_send xml
                         (request_set ''Content-Length'' (Num (int (byteLength env xml ''utf8'')))
                            (fold (\<lambda>key. request_set key (rd h1 b key)) (map fst (cells h1 b))
                               (post (rd h1 (options this) ''url''))))),
               gzip_pending = (if rd h1 (options this) ''gzip'' = Str ''both'' then Some xml else None),
               ended = False, end_listeners = [], log = []\<rparr>)"
  by (auto simp: methodCall_def Let_def request_set_object_def both_iff split: sum.splits val.splits)

lemma methodCall_Inl:
  "methodCall env h this m ps = Inl e \<longleftrightarrow>
     (serializeMethodCall env m ps (rd h (options this) ''encoding'') = Inl e
      \<or> (\<exists>xml. serializeMethodCall env m ps (rd h (options this) ''encoding'') = Inr xml
            \<and> \<not> is_ref (rd (composeRequest env this (rd h (options this) ''headers'') h)
                          (options this) ''headers'')
            \<and> e = TypeError))"
  by (auto simp: methodCall_def Let_def request_set_object_def split: sum.splits val.splits)

lemma composeRequest_no_processors:
  "processors this = [] \<Longrightarrow> composeRequest env this hv h = h"
  by (simp add: composeRequest_def)

lemma composeRequest_no_cookies:
  "cookies this = None \<Longrightarrow> composeRequest env this hv h = h"
proof -
  assume n: "cookies this = None"
  have "fold (\<lambda>p h'. case p of ThisCookies \<Rightarrow> (case cookies this of Some j \<Rightarrow> Cookies_composeRequest env j hv h' | None \<Rightarrow> h')) ps h = h" for ps
    by (induction ps) (auto simp: n split: processor.splits)
  then show ?thesis by (simp add: composeRequest_def)
qed

lemma methodCall_heap:
  "methodCall env h this m ps = Inr (h1, cl) \<Longrightarrow>
     h1 = composeRequest env this (rd h (options this) ''headers'') h"
  unfolding methodCall_Inr by blast

lemma methodCall_fresh:
  assumes "methodCall env h this m ps = Inr (h1, cl)"
  shows "ended cl = False" and "end_listeners cl = []" and "log cl = []"
  using assms unfolding methodCall_Inr by auto

lemma methodCall_sent:
  assumes "methodCall env h this m ps = Inr (h1, cl)" and "k \<noteq> ''Content-Length''"
  shows "lookup (req_header (request cl)) k = get_prop h1 (rd h1 (options this) ''headers'') k"
  using assms unfolding methodCall_Inr
  by (auto simp: get_prop_def headers_copied request_send_def lookup_request_set)

section \<open>The events of a call\<close>

lemma fold_callback:
  "fold (\<lambda>(e, r). callback e r) ls st
     = st\<lparr>st_call := (st_call st)\<lparr>log := log (st_call st) @ map (\<lambda>(e, r). Callback e r) ls\<rparr>\<rparr>"
  by (induction ls arbitrary: st) (auto simp: callback_def)

lemma extends_refl: "extends st st"
  by (simp add: extends_def)

lemma extends_trans: "extends st st' \<Longrightarrow> extends st' st'' \<Longrightarrow> extends st st''"
proof -
  assume a: "extends st st'" and b: "extends st' st''"
  have "rd (st_heap st'') x k = rd (st_heap st) x k" if "x < nxt (st_heap st)" for x k
  proof -
    from a that have "x < nxt (st_heap st')" and "rd (st_heap st') x k = rd (st_heap st) x k"
      by (simp_all add: extends_def)
    with b show ?thesis
      by (simp add: extends_def)
  qed
  with a b show ?thesis
    by (auto simp: extends_def)
qed

lemma on_error_extends: "extends st (on_error x st)"
  by (auto simp: extends_def on_error_def callback_def set_ended_def)

lemma on_deserialized_extends: "extends st (on_deserialized x r st)"
  by (auto simp: extends_def on_deserialized_def callback_def)

lemma on_end_extends: "extends st (on_end env x sc hs st)"
  by (auto simp: extends_def on_end_def callback_def set_ended_def Let_def new_Error_def
      alloc_def rd_def)

lemma emit_end_extends: "extends st (emit_end env x sc hs st)"
proof -
  have "extends (on_end env x sc hs st) (emit_end env x sc hs st)"
    by (auto simp: emit_end_def fold_callback extends_def)
  with on_end_extends [of st env x sc hs] show ?thesis
    by (rule extends_trans)
qed

lemma on_gzip_extends:
  "gzip_succeeds env (st_call st) \<Longrightarrow>
     \<exists>st'. on_gzip env st = Inr st' \<and> extends st st' \<and> gzip_succeeds env (st_call st')
       \<and> ended (st_call st') = ended (st_call st)"
  by (auto simp: on_gzip_def gzip_succeeds_def extends_def split: option.splits)

lemma gzip_pending_on_error: "gzip_pending (st_call (on_error x st)) = gzip_pending (st_call st)"
  by (simp add: on_error_def callback_def set_ended_def)

lemma gzip_pending_on_deserialized:
  "gzip_pending (st_call (on_deserialized x r st)) = gzip_pending (st_call st)"
  by (simp add: on_deserialized_def callback_def)

lemma gzip_pending_emit_end:
  "gzip_pending (st_call (emit_end env x sc hs st)) = gzip_pending (st_call st)"
  by (simp add: emit_end_def fold_callback on_end_def callback_def set_ended_def Let_def
      split: prod.splits)

lemma request_on_error: "request (st_call (on_error x st)) = request (st_call st)"
  by (simp add: on_error_def callback_def set_ended_def)

lemma request_on_deserialized:
  "request (st_call (on_deserialized x r st)) = request (st_call st)"
  by (simp add: on_deserialized_def callback_def)

lemma request_emit_end:
  "request (st_call (emit_end env x sc hs st)) = request (st_call st)"
  by (simp add: emit_end_def fold_callback on_end_def callback_def set_ended_def Let_def
      split: prod.splits)

lemma step_extends:
  "gzip_succeeds env (st_call st) \<Longrightarrow>
     \<exists>st'. step env st ev = Inr st' \<and> extends st st' \<and> gzip_succeeds env (st_call st')"
proof (cases ev)
  case Gzipped
  assume "gzip_succeeds env (st_call st)"
  from on_gzip_extends [OF this] show ?thesis
    by (auto simp: Gzipped)
qed (simp_all add: on_error_extends on_deserialized_extends emit_end_extends gzip_succeeds_def
    gzip_pending_on_error gzip_pending_on_deserialized gzip_pending_emit_end)

lemma run_append:
  "run env st (xs @ ys) = (case run env st xs of Inl e \<Rightarrow> Inl e | Inr st' \<Rightarrow> run env st' ys)"
  by (induction xs arbitrary: st) (auto split: sum.splits)

lemma run_extends:
  "gzip_succeeds env (st_call st) \<Longrightarrow>
     \<exists>st'. run env st evs = Inr st' \<and> extends st st' \<and> gzip_succeeds env (st_call st')"
proof (induction evs arbitrary: st)
  case Nil
  then show ?case by (simp add: extends_refl)
next
  case (Cons ev evs)
  from step_extends [OF Cons.prems] obtain st1 where
    1: "step env st ev = Inr st1" and 2: "extends st st1" and g: "gzip_succeeds env (st_call st1)"
    by blast
  from Cons.IH [OF g] obtain st' where
    3: "run env st1 evs = Inr st'" and 4: "extends st1 st'" and 5: "gzip_succeeds env (st_call st')"
    by blast
  show ?case
    using 1 3 5 extends_trans [OF 2 4] by simp
qed

lemma step_signal:
  "is_signal ev \<Longrightarrow>
     \<exists>st'. step env st ev = Inr st' \<and> request (st_call st') = request (st_call st)
       \<and> gzip_pending (st_call st') = gzip_pending (st_call st)"
  by (cases ev) (simp_all add: gzip_pending_on_error gzip_pending_on_deserialized
      gzip_pending_emit_end request_on_error request_on_deserialized request_emit_end)

lemma run_signals:
  "list_all is_signal evs \<Longrightarrow>
     \<exists>st'. run env st evs = Inr st' \<and> request (st_call st') = request (st_call st)
       \<and> gzip_pending (st_call st') = gzip_pending (st_call st)"
proof (induction evs arbitrary: st)
  case Nil
  then show ?case by simp
next
  case (Cons ev evs)
  from Cons.prems have s: "is_signal ev" and r: "list_all is_signal evs"
    by simp_all
  from step_signal [OF s] obtain st1 where
    1: "step env st ev = Inr st1" and 2: "request (st_call st1) = request (st_call st)"
    and 3: "gzip_pending (st_call st1) = gzip_pending (st_call st)"
    by blast
  from Cons.IH [OF r, of st1] show ?case
    by (simp add: 1 2 3)
qed

lemma ended_emit_end: "ended (st_call (emit_end env x sc hs st))"
  by (simp add: emit_end_def fold_callback on_end_def callback_def set_ended_def Let_def
      split: prod.splits)

lemma step_ended:
  "step env st ev = Inr st' \<Longrightarrow>
     ended (st_call st') = (ended (st_call st) \<or> is_transport ev)"
  by (cases ev) (auto simp: on_error_def on_deserialized_def callback_def set_ended_def
      ended_emit_end on_gzip_def split: if_splits option.splits)

lemma run_ended:
  "run env st evs = Inr st' \<Longrightarrow>
     ended (st_call st') = (ended (st_call st) \<or> list_ex is_transport evs)"
proof (induction evs arbitrary: st)
  case Nil
  then show ?case by simp
next
  case (Cons ev evs)
  from Cons.prems obtain st1 where 1: "step env st ev = Inr st1" and 2: "run env st1 evs = Inr st'"
    by (auto split: sum.splits)
  show ?case
    using Cons.IH [OF 2] step_ended [OF 1] by auto
qed

lemma emit_end_listeners:
  "(x, r) \<in> set (end_listeners (st_call st)) \<Longrightarrow>
     Callback x r \<in> set (log (st_call (emit_end env err sc hs st)))"
  by (force simp: emit_end_def fold_callback)

lemma delivered_later:
  "gzip_succeeds env (st_call st) \<Longrightarrow> list_ex is_end evs \<Longrightarrow>
   (x, r) \<in> set (end_listeners (st_call st)) \<Longrightarrow> run env st evs = Inr st' \<Longrightarrow>
     Callback x r \<in> set (log (st_call st'))"
proof (induction evs arbitrary: st)
  case Nil
  then show ?case by simp
next
  case (Cons ev evs)
  from step_extends [OF Cons.prems(1)] obtain st1 where
    1: "step env st ev = Inr st1" and 2: "extends st st1" and r: "gzip_succeeds env (st_call st1)"
    by blast
  from Cons.prems(4) 1 have 3: "run env st1 evs = Inr st'"
    by simp
  show ?case
  proof (cases "is_end ev")
    case True
    then obtain err sc hs where ev: "ev = ReqEnd err sc hs"
      by (cases ev) simp_all
    from 1 have "st1 = emit_end env err sc hs st"
      by (simp add: ev)
    with emit_end_listeners [OF Cons.prems(3)] have "Callback x r \<in> set (log (st_call st1))"
      by simp
    moreover from run_extends [OF r, of evs] 3 have "extends st1 st'"
      by auto
    ultimately show ?thesis
      by (auto simp: extends_def)
  next
    case False
    with Cons.prems(2) have e: "list_ex is_end evs"
      by simp
    from 2 Cons.prems(3) have "(x, r) \<in> set (end_listeners (st_call st1))"
      by (auto simp: extends_def)
    from Cons.IH [OF r e this 3] show ?thesis .
  qed
qed

lemma alike_step:
  "gzip_succeeds env (st_call st) \<Longrightarrow> \<not> is_end ev \<Longrightarrow> alike st st' \<Longrightarrow>
     \<exists>t t'. step env st ev = Inr t \<and> step env st' ev = Inr t' \<and> alike t t'
       \<and> gzip_succeeds env (st_call t)"
  by (cases ev) (auto simp: alike_def on_error_def on_deserialized_def callback_def set_ended_def
      on_gzip_def gzip_succeeds_def split: option.splits)

lemma alike_run:
  "gzip_succeeds env (st_call st) \<Longrightarrow> \<not> list_ex is_end evs \<Longrightarrow> alike st st' \<Longrightarrow>
     \<exists>t t'. run env st evs = Inr t \<and> run env st' evs = Inr t' \<and> alike t t'"
proof (induction evs arbitrary: st st')
  case Nil
  then show ?case by simp
next
  case (Cons ev evs)
  from Cons.prems(2) have n: "\<not> is_end ev" and m: "\<not> list_ex is_end evs"
    by simp_all
  from alike_step [OF Cons.prems(1) n Cons.prems(3)] obtain t t' where
    1: "step env st ev = Inr t" and 2: "step env st' ev = Inr t'" and 3: "alike t t'"
    and r: "gzip_succeeds env (st_call t)"
    by blast
  from Cons.IH [OF r m 3] show ?case
    by (simp add: 1 2)
qed

lemma on_end_log:
  "log (st_call (on_end env x sc hs st)) =
     log (st_call st) @
       (if truthy x then [Callback x Undefined]
        else if sc = 404 then [Callback (Ref (nxt (st_heap st))) Undefined]
        else [ParseResponse hs])"
  by (simp add: on_end_def callback_def set_ended_def Let_def new_Error_def alloc_def)

lemma on_end_heap:
  "\<not> truthy x \<Longrightarrow> sc = 404 \<Longrightarrow>
     rd (st_heap (on_end env x sc hs st)) (nxt (st_heap st)) ''message'' = Str ''Not Found''
     \<and> nxt (st_heap st) < nxt (st_heap (on_end env x sc hs st))"
  by (simp add: on_end_def callback_def set_ended_def Let_def new_Error_def alloc_def rd_def)

lemma emit_end_log:
  "set (log (st_call (on_end env x sc hs st))) \<subseteq> set (log (st_call (emit_end env x sc hs st)))"
  by (auto simp: emit_end_def fold_callback)

lemma emit_end_heap: "st_heap (emit_end env x sc hs st) = st_heap (on_end env x sc hs st)"
  by (simp add: emit_end_def fold_callback)

section \<open>The body, its length, and the order of the handlers\<close>

text \<open>
  C6, as the code has it. In gzip mode \<^verbatim>\<open>both\<close> \<^verbatim>\<open>methodCall\<close> sends nothing
  itself and hands the serialized body to \<^verbatim>\<open>zlib.gzip\<close>; whatever the request
  and the deserializer signal in the meantime, nothing is sent until \<^verbatim>\<open>zlib\<close>
  calls back. When it calls back with the compressed body, that buffer is sent
  and \<^verbatim>\<open>Content-Length\<close> is its length; when compression has failed, the
  callback throws and nothing is sent. In every other mode the serialized body
  is sent as it is and \<^verbatim>\<open>Content-Length\<close> is its byte length in UTF-8, whatever
  request encoding is configured.
\<close>

theorem content_length_of_body:
  assumes "methodCall env h this m ps = Inr (h1, cl)"
    and "list_all is_signal earlier"
  shows "\<exists>xml. serializeMethodCall env m ps (rd h (options this) ''encoding'') = Inr xml
     \<and> (if rd h1 (options this) ''gzip'' = Str ''both''
         then gzip_pending cl = Some xml
            \<and> (\<exists>st. run env \<lparr>st_heap = h1, st_client = this, st_call = cl\<rparr> earlier = Inr st
                   \<and> req_body (request (st_call st)) = None)
            \<and> (case zlib_gzip env xml of
                  None \<Rightarrow>
                    run env \<lparr>st_heap = h1, st_client = this, st_call = cl\<rparr> (earlier @ [Gzipped])
                      = Inl TypeError
                | Some buffer \<Rightarrow>
                    (\<exists>st. run env \<lparr>st_heap = h1, st_client = this, st_call = cl\<rparr>
                             (earlier @ [Gzipped]) = Inr st
                       \<and> req_body (request (st_call st)) = Some buffer
                       \<and> lookup (req_header (request (st_call st))) ''Content-Length''
                           = Num (int (length buffer))))
         else gzip_pending cl = None \<and> req_body (request cl) = Some xml
            \<and> lookup (req_header (request cl)) ''Content-Length''
                = Num (int (byteLength env xml ''utf8'')))"
proof -
  let ?st0 = "\<lparr>st_heap = h1, st_client = this, st_call = cl\<rparr>"
  from assms(1) obtain xml b where
    x: "serializeMethodCall env m ps (rd h (options this) ''encoding'') = Inr xml"
    and c: "cl = \<lparr>request =
                 (if rd h1 (options this) ''gzip'' = Str ''both''
                  then fold (\<lambda>key. request_set key (rd h1 b key)) (map fst (cells h1 b))
                         (post (rd h1 (options this) ''url''))
                  else request_send xml
                         (request_set ''Content-Length'' (Num (int (byteLength env xml ''utf8'')))
                            (fold (\<lambda>key. request_set key (rd h1 b key)) (map fst (cells h1 b))
                               (post (rd h1 (options this) ''url''))))),
               gzip_pending = (if rd h1 (options this) ''gzip'' = Str ''both'' then Some xml else None),
               ended = False, end_listeners = [], log = []\<rparr>"
    unfolding methodCall_Inr by blast
  from run_signals [OF assms(2), of env ?st0] obtain s1 where
    r1: "run env ?st0 earlier = Inr s1" and q1: "request (st_call s1) = request cl"
    and g1: "gzip_pending (st_call s1) = gzip_pending cl"
    by auto
  have r2: "run env ?st0 (earlier @ [Gzipped]) = on_gzip env s1"
    by (simp add: run_append r1 split: sum.splits)
  show ?thesis
  proof (cases "rd h1 (options this) ''gzip'' = Str ''both''")
    case True
    have p: "gzip_pending cl = Some xml" and n: "req_body (request cl) = None"
      by (simp_all add: c True req_body_fold_set post_def)
    have 1: "\<exists>st. run env ?st0 earlier = Inr st \<and> req_body (request (st_call st)) = None"
      by (simp add: r1 q1 n)
    have 2: "case zlib_gzip env xml of
        None \<Rightarrow> run env ?st0 (earlier @ [Gzipped]) = Inl TypeError
      | Some buffer \<Rightarrow>
          (\<exists>st. run env ?st0 (earlier @ [Gzipped]) = Inr st
             \<and> req_body (request (st_call st)) = Some buffer
             \<and> lookup (req_header (request (st_call st))) ''Content-Length''
                 = Num (int (length buffer)))"
      by (simp add: r2 on_gzip_def g1 p request_send_def request_set_def lookup_put
          split: option.splits)
    from x True p 1 2 show ?thesis
      by auto
  next
    case False
    show ?thesis
      by (rule exI [of _ xml])
         (simp add: x c False request_send_def request_set_def lookup_put)
  qed
qed

text \<open>
  C5. A call whose transport completes without error and with a status other
  than 404: in both orders of completion and deserializer result,
  \<^verbatim>\<open>parseResponse\<close> has run over the response headers before the callback is
  invoked, the callback receives the deserializer's result, and after the
  first of the two events alone the callback has not been invoked.
\<close>

theorem parseResponse_before_callback:
  assumes "methodCall env h this m ps = Inr (h1, cl)"
    and "\<not> truthy err" and "statusCode \<noteq> 404"
  shows "\<exists>st1 st2.
       run env \<lparr>st_heap = h1, st_client = this, st_call = cl\<rparr>
         [ReqEnd err statusCode hs, Deserialized e r] = Inr st1
     \<and> log (st_call st1) = [ParseResponse hs, Callback e r]
     \<and> st_client st1 = parseResponse env hs this
     \<and> run env \<lparr>st_heap = h1, st_client = this, st_call = cl\<rparr>
         [Deserialized e r, ReqEnd err statusCode hs] = Inr st2
     \<and> log (st_call st2) = [ParseResponse hs, Callback e r]
     \<and> st_client st2 = parseResponse env hs this
     \<and> log (st_call (emit_end env err statusCode hs \<lparr>st_heap = h1, st_client = this, st_call = cl\<rparr>))
         = [ParseResponse hs]
     \<and> log (st_call (on_deserialized e r \<lparr>st_heap = h1, st_client = this, st_call = cl\<rparr>)) = []"
  using assms(2,3) methodCall_fresh [OF assms(1)]
  by (simp add: emit_end_def on_end_def on_deserialized_def callback_def set_ended_def Let_def)

section \<open>The stored headers\<close>

lemma composeRequest_idle:
  "cookies this = None \<or> processors this = [] \<Longrightarrow> composeRequest env this hv h = h"
  by (auto simp: composeRequest_no_cookies composeRequest_no_processors)

text \<open>
  C3, as the code has it. \<^verbatim>\<open>methodCall\<close> hands the stored header object itself
  to \<^verbatim>\<open>composeRequest\<close>; there is no working copy. The heap after an invocation
  is the heap as the processors left it, and every header of the request but
  \<^verbatim>\<open>Content-Length\<close> is read from the stored object after the processors ran. A
  later invocation on the same configuration, by this client or by another one,
  starts from that heap. If its client has no processor, it leaves the heap as
  it found it and sends every header but \<^verbatim>\<open>Content-Length\<close> as the earlier
  invocation sent it. An invocation by a client without processors (no cookie
  support) leaves the stored configuration unchanged.
\<close>

theorem composeRequest_on_stored_headers:
  assumes "methodCall env h this m ps = Inr (h1, cl)"
    and "options that = options this"
    and "methodCall env h1 that m' ps' = Inr (h2, cl')"
  shows "h1 = composeRequest env this (rd h (options this) ''headers'') h
     \<and> (\<forall>k. k \<noteq> ''Content-Length'' \<longrightarrow>
           lookup (req_header (request cl)) k = get_prop h1 (rd h1 (options this) ''headers'') k)
     \<and> h2 = composeRequest env that (rd h1 (options this) ''headers'') h1
     \<and> (\<forall>k. k \<noteq> ''Content-Length'' \<longrightarrow>
           lookup (req_header (request cl')) k = get_prop h2 (rd h2 (options this) ''headers'') k)
     \<and> (cookies this = None \<or> processors this = [] \<longrightarrow> h1 = h)
     \<and> (cookies that = None \<or> processors that = [] \<longrightarrow>
           h2 = h1
         \<and> (\<forall>k. k \<noteq> ''Content-Length'' \<longrightarrow>
               lookup (req_header (request cl')) k = lookup (req_header (request cl)) k))"
proof -
  have 1: "h1 = composeRequest env this (rd h (options this) ''headers'') h"
    by (rule methodCall_heap [OF assms(1)])
  have 2: "h2 = composeRequest env that (rd h1 (options this) ''headers'') h1"
    using methodCall_heap [OF assms(3)] by (simp add: assms(2))
  have 3: "lookup (req_header (request cl)) k = get_prop h1 (rd h1 (options this) ''headers'') k"
    if "k \<noteq> ''Content-Length''" for k
    by (rule methodCall_sent [OF assms(1) that])
  have 4: "lookup (req_header (request cl')) k = get_prop h2 (rd h2 (options this) ''headers'') k"
    if "k \<noteq> ''Content-Length''" for k
    using methodCall_sent [OF assms(3) that] by (simp add: assms(2))
  have 5: "h1 = h" if "cookies this = None \<or> processors this = []"
    using 1 by (simp add: composeRequest_idle [OF that])
  have 6: "h2 = h1" if "cookies that = None \<or> processors that = []"
    using 2 by (simp add: composeRequest_idle [OF that])
  have 7: "lookup (req_header (request cl')) k = lookup (req_header (request cl)) k"
    if "cookies that = None \<or> processors that = []" and "k \<noteq> ''Content-Length''" for k
    using 3 [OF that(2)] 4 [OF that(2)] 6 [OF that(1)] by simp
  show ?thesis
    using 1 2 3 4 5 6 7 by blast
qed

section \<open>The errors of a call\<close>

text \<open>
  C4, as the code has it. A failure of the serializer leaves \<^verbatim>\<open>methodCall\<close> as
  an exception. Once \<^verbatim>\<open>methodCall\<close> has returned: if compression fails (gzip
  mode \<^verbatim>\<open>both\<close>), the callback of \<^verbatim>\<open>zlib\<close> throws. If it does not, the events of
  the call, in whatever order and number, raise no exception, and for each
  event \<open>ev\<close> among them, \<open>earlier\<close> the events before it and \<open>later\<close> those
  after it:
  \<^item> the error of an \<^verbatim>\<open>error\<close> event is handed to the callback as its first
    argument if no \<^verbatim>\<open>error\<close> or \<^verbatim>\<open>end\<close> came earlier; otherwise it is dropped,
    the run is the run without the event;
  \<^item> at \<^verbatim>\<open>end\<close>, the error of the request is handed to the callback; if there
    is none and the status is 404, an error with the message \<^verbatim>\<open>Not Found\<close> is;
    otherwise \<^verbatim>\<open>parseResponse\<close> runs;
  \<^item> what the deserializer calls back with, its error first, is handed to the
    callback if \<^verbatim>\<open>error\<close> or \<^verbatim>\<open>end\<close> came earlier or \<^verbatim>\<open>end\<close> comes later;
    otherwise it is never delivered, the invocations are those of the run
    without the event.
\<close>

theorem errors_of_a_call:
  "(\<forall>e. serializeMethodCall env m ps (rd h (options this) ''encoding'') = Inl e \<longrightarrow>
        methodCall env h this m ps = Inl e)
   \<and> (\<forall>h1 cl. methodCall env h this m ps = Inr (h1, cl) \<longrightarrow>
        (if gzip_succeeds env cl
         then
          (\<exists>st. run env \<lparr>st_heap = h1, st_client = this, st_call = cl\<rparr> (earlier @ ev # later) = Inr st
           \<and> (case ev of
                 ReqError x \<Rightarrow>
                   (if list_ex is_transport earlier
                    then run env \<lparr>st_heap = h1, st_client = this, st_call = cl\<rparr> (earlier @ ev # later)
                         = run env \<lparr>st_heap = h1, st_client = this, st_call = cl\<rparr> (earlier @ later)
                    else Callback x Undefined \<in> set (log (st_call st)))
               | ReqEnd x statusCode hs \<Rightarrow>
                   (if truthy x then Callback x Undefined \<in> set (log (st_call st))
                    else if statusCode = 404
                    then (\<exists>a. Callback (Ref a) Undefined \<in> set (log (st_call st))
                            \<and> rd (st_heap st) a ''message'' = Str ''Not Found'')
                    else ParseResponse hs \<in> set (log (st_call st)))
               | Deserialized x r \<Rightarrow>
                   (if list_ex is_transport earlier \<or> list_ex is_end later
                    then Callback x r \<in> set (log (st_call st))
                    else final_log (run env \<lparr>st_heap = h1, st_client = this, st_call = cl\<rparr>
                                      (earlier @ ev # later))
                         = final_log (run env \<lparr>st_heap = h1, st_client = this, st_call = cl\<rparr>
                                        (earlier @ later)))
               | Gzipped \<Rightarrow> True))
         else
          (list_all is_signal earlier \<longrightarrow>
             run env \<lparr>st_heap = h1, st_client = this, st_call = cl\<rparr> (earlier @ Gzipped # later)
               = Inl TypeError)))"
proof (intro conjI allI impI)
  fix e
  assume "serializeMethodCall env m ps (rd h (options this) ''encoding'') = Inl e"
  then show "methodCall env h this m ps = Inl e"
    by (simp add: methodCall_Inl)
next
  fix h1 cl
  assume mc: "methodCall env h this m ps = Inr (h1, cl)"
  let ?st0 = "\<lparr>st_heap = h1, st_client = this, st_call = cl\<rparr>"
  let ?good = "\<exists>st. run env ?st0 (earlier @ ev # later) = Inr st \<and>
    (case ev of
      ReqError x \<Rightarrow>
        (if list_ex is_transport earlier
         then run env ?st0 (earlier @ ev # later) = run env ?st0 (earlier @ later)
         else Callback x Undefined \<in> set (log (st_call st)))
    | ReqEnd x statusCode hs \<Rightarrow>
        (if truthy x then Callback x Undefined \<in> set (log (st_call st))
         else if statusCode = 404
         then (\<exists>a. Callback (Ref a) Undefined \<in> set (log (st_call st))
                 \<and> rd (st_heap st) a ''message'' = Str ''Not Found'')
         else ParseResponse hs \<in> set (log (st_call st)))
    | Deserialized x r \<Rightarrow>
        (if list_ex is_transport earlier \<or> list_ex is_end later
         then Callback x r \<in> set (log (st_call st))
         else final_log (run env ?st0 (earlier @ ev # later)) = final_log (run env ?st0 (earlier @ later)))
    | Gzipped \<Rightarrow> True)"
  let ?bad = "list_all is_signal earlier \<longrightarrow>
    run env ?st0 (earlier @ Gzipped # later) = Inl TypeError"
  have good: ?good if g0: "gzip_succeeds env cl"
  proof -
    from g0 have g: "gzip_succeeds env (st_call ?st0)"
      by simp
    from run_extends [OF g, of earlier] obtain s1 where
      r1: "run env ?st0 earlier = Inr s1" and g1: "gzip_succeeds env (st_call s1)"
      by blast
    from run_ended [OF r1] methodCall_fresh(1) [OF mc]
    have e1: "ended (st_call s1) = list_ex is_transport earlier"
      by simp
    from step_extends [OF g1, of ev] obtain s2 where
      r2: "step env s1 ev = Inr s2" and g2: "gzip_succeeds env (st_call s2)"
      by blast
    from run_extends [OF g2, of later] obtain st where
      r3: "run env s2 later = Inr st" and x3: "extends s2 st"
      by blast
    have r: "run env ?st0 (earlier @ ev # later) = Inr st"
      by (simp add: run_append r1 r2 r3)
    have q: "run env ?st0 (earlier @ later) = run env s1 later"
      by (simp add: run_append r1)
    have keep: "a \<in> set (log (st_call st))" if "a \<in> set (log (st_call s2))" for a
      using x3 that by (auto simp: extends_def)
    have c: "case ev of
        ReqError x \<Rightarrow>
          (if list_ex is_transport earlier
           then run env ?st0 (earlier @ ev # later) = run env ?st0 (earlier @ later)
           else Callback x Undefined \<in> set (log (st_call st)))
      | ReqEnd x statusCode hs \<Rightarrow>
          (if truthy x then Callback x Undefined \<in> set (log (st_call st))
           else if statusCode = 404
           then (\<exists>a. Callback (Ref a) Undefined \<in> set (log (st_call st))
                   \<and> rd (st_heap st) a ''message'' = Str ''Not Found'')
           else ParseResponse hs \<in> set (log (st_call st)))
      | Deserialized x r \<Rightarrow>
          (if list_ex is_transport earlier \<or> list_ex is_end later
           then Callback x r \<in> set (log (st_call st))
           else final_log (run env ?st0 (earlier @ ev # later)) = final_log (run env ?st0 (earlier @ later)))
      | Gzipped \<Rightarrow> True"
    proof (cases ev)
      case (ReqError x)
      show ?thesis
      proof (cases "list_ex is_transport earlier")
        case True
        with e1 r2 have "s2 = s1"
          by (simp add: ReqError on_error_def)
        with r q r3 True show ?thesis
          by (simp add: ReqError)
      next
        case False
        with e1 r2 have "Callback x Undefined \<in> set (log (st_call s2))"
          by (auto simp: ReqError on_error_def callback_def set_ended_def)
        from keep [OF this] False show ?thesis
          by (simp add: ReqError)
      qed
    next
      case (ReqEnd x sc hs)
      from r2 have s2: "s2 = emit_end env x sc hs s1"
        by (simp add: ReqEnd)
      have sub: "a \<in> set (log (st_call st))"
        if "a \<in> set (log (st_call (on_end env x sc hs s1)))" for a
        using keep emit_end_log [of env x sc hs s1] that by (auto simp: s2)
      show ?thesis
      proof (cases "truthy x")
        case True
        have "Callback x Undefined \<in> set (log (st_call st))"
          by (rule sub) (simp add: on_end_log True)
        with True show ?thesis
          by (simp add: ReqEnd)
      next
        case False
        show ?thesis
        proof (cases "sc = 404")
          case True
          have 1: "Callback (Ref (nxt (st_heap s1))) Undefined \<in> set (log (st_call st))"
            by (rule sub) (simp add: on_end_log False True)
          from on_end_heap [OF False True, of env hs s1]
          have "rd (st_heap s2) (nxt (st_heap s1)) ''message'' = Str ''Not Found''"
            and "nxt (st_heap s1) < nxt (st_heap s2)"
            by (simp_all add: s2 emit_end_heap)
          with x3 have 2: "rd (st_heap st) (nxt (st_heap s1)) ''message'' = Str ''Not Found''"
            by (simp add: extends_def)
          from 1 2 False True show ?thesis
            by (auto simp: ReqEnd)
        next
          case no: False
          have "ParseResponse hs \<in> set (log (st_call st))"
            by (rule sub) (simp add: on_end_log False no)
          with False no show ?thesis
            by (simp add: ReqEnd)
        qed
      qed
    next
      case (Deserialized x r')
      from r2 have s2: "s2 = on_deserialized x r' s1"
        by (simp add: Deserialized)
      show ?thesis
      proof (cases "list_ex is_transport earlier")
        case True
        with e1 have "Callback x r' \<in> set (log (st_call s2))"
          by (simp add: s2 on_deserialized_def callback_def)
        from keep [OF this] True show ?thesis
          by (simp add: Deserialized)
      next
        case False
        with e1 have l: "(x, r') \<in> set (end_listeners (st_call s2))" and al: "alike s2 s1"
          by (simp_all add: s2 on_deserialized_def alike_def)
        show ?thesis
        proof (cases "list_ex is_end later")
          case True
          from delivered_later [OF g2 True l r3] True show ?thesis
            by (simp add: Deserialized)
        next
          case no: False
          from alike_run [OF g2 no al] r3 obtain t where
            "run env s1 later = Inr t" and "alike st t"
            by auto
          with r q False no show ?thesis
            by (simp add: Deserialized final_log_def alike_def)
        qed
      qed
    next
      case Gzipped
      then show ?thesis by simp
    qed
    from r c show ?thesis
      by blast
  qed
  have bad: ?bad if g0: "\<not> gzip_succeeds env cl"
  proof
    assume s: "list_all is_signal earlier"
    from run_signals [OF s, of env ?st0] obtain s1 where
      r1: "run env ?st0 earlier = Inr s1" and p1: "gzip_pending (st_call s1) = gzip_pending cl"
      by auto
    from g0 p1 have "on_gzip env s1 = Inl TypeError"
      by (auto simp: gzip_succeeds_def on_gzip_def split: option.splits)
    then show "run env ?st0 (earlier @ Gzipped # later) = Inl TypeError"
      by (simp add: run_append r1)
  qed
  from good bad show "if gzip_succeeds env cl then ?good else ?bad"
    by simp
qed

section \<open>Concrete sessions\<close>

text \<open>
  C1 asks for exactly one invocation of the callback. A request that ends with
  status 404, in either order with the deserializer's result, or a transport
  error followed by the deserializer's result: the callback is invoked twice.
  The flag \<^verbatim>\<open>ended\<close> says that the transport is done, not that the callback has
  fired, and the deserializer's callback (lines 183--188) fires whenever the
  transport is done.
\<close>

theorem callback_fires_twice:
  "callback_count
     (session node (heap_of [[(''host'', Str ''h'')]]) (Options 0) False [] ''m'' []
        [ReqEnd Undefined 404 [], Deserialized Null (Str ''v'')]) = Inr 2
   \<and> callback_count
     (session node (heap_of [[(''host'', Str ''h'')]]) (Options 0) False [] ''m'' []
        [Deserialized Null (Str ''v''), ReqEnd Undefined 404 []]) = Inr 2
   \<and> callback_count
     (session node (heap_of [[(''host'', Str ''h'')]]) (Options 0) False [] ''m'' []
        [ReqError (Str ''ECONNRESET''), Deserialized (Str ''ECONNRESET'') Undefined]) = Inr 2"
  by code_simp

text \<open>
  C2 asks that a 404 discards the deserializer's result. The callback receives
  the \<^verbatim>\<open>Not Found\<close> error first and then the deserializer's result all the same,
  in both orders of arrival.
\<close>

theorem result_delivered_after_404:
  "final_log
     (session node (heap_of [[(''host'', Str ''h'')]]) (Options 0) False [] ''m'' []
        [ReqEnd Undefined 404 [], Deserialized Null (Str ''v'')])
     = Inr [Callback (Ref 2) Undefined, Callback Null (Str ''v'')]
   \<and> final_log
     (session node (heap_of [[(''host'', Str ''h'')]]) (Options 0) False [] ''m'' []
        [Deserialized Null (Str ''v''), ReqEnd Undefined 404 []])
     = Inr [Callback (Ref 2) Undefined, Callback Null (Str ''v'')]
   \<and> final_field
     (session node (heap_of [[(''host'', Str ''h'')]]) (Options 0) False [] ''m'' []
        [ReqEnd Undefined 404 [], Deserialized Null (Str ''v'')]) 2 ''message''
     = Inr (Str ''Not Found'')"
  by code_simp

text \<open>
  Against C3 as stated: a client with cookie support and one cookie set. After
  construction the stored header object (address 1) has no \<^verbatim>\<open>Cookie\<close> entry;
  after one \<^verbatim>\<open>methodCall\<close> it has.
\<close>

theorem stored_headers_changed_by_call:
  "constructed_field
     (Client node (heap_of [[(''host'', Str ''h''), (''cookies'', Bool True)]]) (Options 0) False)
     0 ''headers'' = Inr (Ref 1)
   \<and> constructed_field
     (Client node (heap_of [[(''host'', Str ''h''), (''cookies'', Bool True)]]) (Options 0) False)
     1 ''Cookie'' = Inr Undefined
   \<and> final_field
     (session node (heap_of [[(''host'', Str ''h''), (''cookies'', Bool True)]]) (Options 0) False
        [(''a'', Str ''1'')] ''m'' [] [])
     0 ''headers'' = Inr (Ref 1)
   \<and> final_field
     (session node (heap_of [[(''host'', Str ''h''), (''cookies'', Bool True)]]) (Options 0) False
        [(''a'', Str ''1'')] ''m'' [] [])
     1 ''Cookie'' = Inr (Str ''a=1'')"
  by code_simp

text \<open>
  Against C4 as stated: a string parameter that holds the character NUL, which
  the serializer cannot encode. The constructor succeeds; \<^verbatim>\<open>methodCall\<close> ends
  with the serializer's exception, and there is no call whose callback could
  receive it. And two errors that arrive after \<^verbatim>\<open>methodCall\<close> has returned and
  never reach the callback: the deserializer's fault when the request then
  fails with \<^verbatim>\<open>error\<close> and never ends, and an \<^verbatim>\<open>error\<close> after \<^verbatim>\<open>end\<close>.
\<close>

theorem serializer_failure_is_thrown:
  "constructed_field
     (Client node (heap_of [[(''host'', Str ''h'')]]) (Options 0) False) 0 ''method''
     = Inr (Str ''POST'')
   \<and> final_log
     (session node (heap_of [[(''host'', Str ''h'')]]) (Options 0) False [] ''m''
        [Str [CHR 0x00]] [])
     = Inl (EncodingError (Str [CHR 0x00]))
   \<and> final_log
     (session node (heap_of [[(''host'', Str ''h'')]]) (Options 0) False [] ''m'' []
        [Deserialized (Str ''fault'') Undefined, ReqError (Str ''ECONNRESET'')])
     = Inr [Callback (Str ''ECONNRESET'') Undefined]
   \<and> final_log
     (session node (heap_of [[(''host'', Str ''h'')]]) (Options 0) False [] ''m'' []
        [ReqEnd Undefined 200 [], ReqError (Str ''ECONNRESET'')])
     = Inr [ParseResponse []]"
  by code_simp

text \<open>
  Against C6 as stated: request encoding \<^verbatim>\<open>latin1\<close>, gzip off, and a method name
  with one character outside ASCII. The body has 68 bytes in \<^verbatim>\<open>latin1\<close>; the
  \<^verbatim>\<open>Content-Length\<close> sent is 69, the UTF-8 length.
\<close>

theorem content_length_is_utf8_length:
  "sent_header
     (session node (heap_of [[(''host'', Str ''h''), (''encoding'', Str ''latin1'')]]) (Options 0) False
        [] [CHR 0xE9] [] []) ''Content-Length''
     = Inr (Num 69)
   \<and> sent_body_length node ''latin1''
     (session node (heap_of [[(''host'', Str ''h''), (''encoding'', Str ''latin1'')]]) (Options 0) False
        [] [CHR 0xE9] [] [])
     = Inr (Some 68)
   \<and> final_field
     (session node (heap_of [[(''host'', Str ''h''), (''encoding'', Str ''latin1'')]]) (Options 0) False
        [] [CHR 0xE9] [] []) 0 ''gzip''
     = Inr (Bool False)"
  by code_simp

lemma methodCall_sample:
  "\<exists>h1 cl. methodCall node configured plain_client ''m'' [] = Inr (h1, cl)"
  by (simp add: methodCall_Inr composeRequest_def rd_heap_of node_def configured_def
      plain_client_def spec_serializeMethodCall_def)

lemma methodCall_sample_plain:
  "methodCall node configured plain_client ''m'' [] = Inr (h1, cl) \<Longrightarrow> gzip_succeeds node cl"
  by (auto simp: methodCall_Inr composeRequest_def rd_heap_of node_def configured_def
      plain_client_def gzip_succeeds_def)

lemma sample_body:
  "serializeMethodCall node ''m'' [] enc
     = Inr ''<methodCall><methodName>m</methodName><params></params></methodCall>''"
  by (simp add: node_def spec_serializeMethodCall_def)

theorem parseResponse_before_callback_witness:
  "\<exists>h1 cl. methodCall node configured plain_client ''m'' [] = Inr (h1, cl)
    \<and> \<not> truthy Undefined \<and> (200 :: int) \<noteq> 404
    \<and> (\<exists>st1 st2.
         run node \<lparr>st_heap = h1, st_client = plain_client, st_call = cl\<rparr>
           [ReqEnd Undefined 200 [], Deserialized Null (Str ''v'')] = Inr st1
       \<and> log (st_call st1) = [ParseResponse [], Callback Null (Str ''v'')]
       \<and> st_client st1 = parseResponse node [] plain_client
       \<and> run node \<lparr>st_heap = h1, st_client = plain_client, st_call = cl\<rparr>
           [Deserialized Null (Str ''v''), ReqEnd Undefined 200 []] = Inr st2
       \<and> log (st_call st2) = [ParseResponse [], Callback Null (Str ''v'')]
       \<and> st_client st2 = parseResponse node [] plain_client
       \<and> log (st_call (emit_end node Undefined 200 []
              \<lparr>st_heap = h1, st_client = plain_client, st_call = cl\<rparr>)) = [ParseResponse []]
       \<and> log (st_call (on_deserialized Null (Str ''v'')
              \<lparr>st_heap = h1, st_client = plain_client, st_call = cl\<rparr>)) = [])"
proof -
  from methodCall_sample obtain h1 cl where
    m: "methodCall node configured plain_client ''m'' [] = Inr (h1, cl)"
    by blast
  have t: "\<not> truthy Undefined" by simp
  have s: "(200 :: int) \<noteq> 404" by simp
  show ?thesis
    apply (rule exI [of _ h1], rule exI [of _ cl])
    apply (intro conjI)
       apply (rule m)
      apply (rule t)
     apply (rule s)
    apply (rule parseResponse_before_callback [OF m t s])
    done
qed

lemma methodCall_sample_both:
  "\<exists>h1 cl. methodCall node configured_both plain_client ''m'' [] = Inr (h1, cl)"
  by (simp add: methodCall_Inr composeRequest_def rd_heap_of node_def configured_both_def
      plain_client_def spec_serializeMethodCall_def)

lemma crc32_check_value:
  "bytes_of (crc32 (utf8 ''123456789'')) = [0x26, 0x39, 0xF4, 0xCB]"
  by code_simp

lemma methodCall_sample_failing:
  "\<exists>h1 cl. methodCall failing_zlib configured_both plain_client ''m'' [] = Inr (h1, cl)"
  by (simp add: methodCall_Inr composeRequest_def rd_heap_of node_def configured_both_def
      plain_client_def spec_serializeMethodCall_def failing_zlib_def)

lemma methodCall_failing_pending:
  "methodCall failing_zlib configured_both plain_client ''m'' [] = Inr (h1, cl) \<Longrightarrow>
     \<not> gzip_succeeds failing_zlib cl"
  by (auto simp: methodCall_Inr composeRequest_def rd_heap_of configured_both_def
      plain_client_def gzip_succeeds_def failing_zlib_def)

lemma length_stored_blocks:
  "length bytes \<le> 65535 \<Longrightarrow> length (stored_blocks bytes) = 5 + length bytes"
  by (simp add: stored_blocks.simps le16_def)

lemma length_utf8_sample:
  "length (utf8 ''<methodCall><methodName>m</methodName><params></params></methodCall>'') = 68"
  by code_simp

lemma length_node_gzip:
  "\<exists>buffer. node_gzip ''<methodCall><methodName>m</methodName><params></params></methodCall>''
              = Some buffer \<and> length buffer = 91"
  by (simp add: node_gzip_def Let_def length_stored_blocks length_utf8_sample bytes_of_def
      le32_def le16_def)

theorem content_length_of_body_witness:
  "list_all is_signal []
   \<and> (\<exists>h1 cl. methodCall node configured plain_client ''m'' [] = Inr (h1, cl)
      \<and> rd h1 (options plain_client) ''gzip'' = Bool False
      \<and> req_body (request cl)
          = Some ''<methodCall><methodName>m</methodName><params></params></methodCall>''
      \<and> lookup (req_header (request cl)) ''Content-Length'' = Num 68)
   \<and> (\<exists>h1 cl st. methodCall node configured_both plain_client ''m'' [] = Inr (h1, cl)
      \<and> rd h1 (options plain_client) ''gzip'' = Str ''both''
      \<and> req_body (request cl) = None
      \<and> run node \<lparr>st_heap = h1, st_client = plain_client, st_call = cl\<rparr> [Gzipped] = Inr st
      \<and> req_body (request (st_call st))
          = node_gzip ''<methodCall><methodName>m</methodName><params></params></methodCall>''
      \<and> lookup (req_header (request (st_call st))) ''Content-Length'' = Num 91)
   \<and> (\<exists>h1 cl. methodCall failing_zlib configured_both plain_client ''m'' [] = Inr (h1, cl)
      \<and> rd h1 (options plain_client) ''gzip'' = Str ''both''
      \<and> run failing_zlib \<lparr>st_heap = h1, st_client = plain_client, st_call = cl\<rparr> [Gzipped]
          = Inl TypeError)"
proof -
  let ?xml = "''<methodCall><methodName>m</methodName><params></params></methodCall>''"
  have e: "list_all is_signal []"
    by simp
  have l: "node_byteLength ?xml ''utf8'' = 68"
    by code_simp
  have b: "byteLength node = node_byteLength" and z: "zlib_gzip node = node_gzip"
    by (simp_all add: node_def)
  from methodCall_sample obtain h1 cl where
    m: "methodCall node configured plain_client ''m'' [] = Inr (h1, cl)"
    by blast
  have h1: "h1 = configured"
    using methodCall_heap [OF m] by (simp add: composeRequest_def plain_client_def)
  have g: "rd h1 (options plain_client) ''gzip'' = Bool False"
    by (simp add: h1 configured_def plain_client_def rd_heap_of)
  from content_length_of_body [OF m e]
  have 1: "req_body (request cl) = Some ?xml
      \<and> lookup (req_header (request cl)) ''Content-Length'' = Num 68"
    by (simp add: g sample_body b l)
  from methodCall_sample_both obtain h2 cl2 where
    m2: "methodCall node configured_both plain_client ''m'' [] = Inr (h2, cl2)"
    by blast
  have h2: "h2 = configured_both"
    using methodCall_heap [OF m2] by (simp add: composeRequest_def plain_client_def)
  have g2: "rd h2 (options plain_client) ''gzip'' = Str ''both''"
    by (simp add: h2 configured_both_def plain_client_def rd_heap_of)
  from length_node_gzip obtain buffer where
    n: "node_gzip ?xml = Some buffer" and nl: "length buffer = 91"
    by blast
  from content_length_of_body [OF m2 e]
  have 2: "req_body (request cl2) = None
      \<and> (\<exists>st. run node \<lparr>st_heap = h2, st_client = plain_client, st_call = cl2\<rparr> [Gzipped] = Inr st
            \<and> req_body (request (st_call st)) = node_gzip ?xml
            \<and> lookup (req_header (request (st_call st))) ''Content-Length'' = Num 91)"
    by (simp add: g2 sample_body z n nl)
  from methodCall_sample_failing obtain h3 cl3 where
    m3: "methodCall failing_zlib configured_both plain_client ''m'' [] = Inr (h3, cl3)"
    by blast
  have h3: "h3 = configured_both"
    using methodCall_heap [OF m3] by (simp add: composeRequest_def plain_client_def)
  have g3: "rd h3 (options plain_client) ''gzip'' = Str ''both''"
    by (simp add: h3 configured_both_def plain_client_def rd_heap_of)
  have x3: "serializeMethodCall failing_zlib ''m'' [] enc = Inr ?xml" for enc
    using sample_body [of enc] by (simp add: failing_zlib_def node_def)
  have zf: "zlib_gzip failing_zlib s = None" for s
    by (simp add: failing_zlib_def)
  from content_length_of_body [OF m3 e]
  have 3: "run failing_zlib \<lparr>st_heap = h3, st_client = plain_client, st_call = cl3\<rparr> [Gzipped]
      = Inl TypeError"
    by (auto simp: g3 x3 zf)
  from e m g 1 m2 g2 2 m3 g3 3 show ?thesis
    by blast
qed

lemma cookie_call:
  "\<exists>cl. methodCall node configured cookie_client ''m'' []
          = Inr (wr 1 ''Cookie'' (Str ''a=1'') configured, cl)"
  by (simp add: methodCall_Inr composeRequest_def rd_heap_of node_def configured_def
      cookie_client_def spec_serializeMethodCall_def jar_composeRequest_def set_prop_def rd_wr)

lemma plain_call:
  "\<exists>h2 cl. methodCall node (wr 1 ''Cookie'' (Str ''a=1'') configured) plain_client ''m'' []
          = Inr (h2, cl)"
  by (simp add: methodCall_Inr composeRequest_def rd_heap_of node_def configured_def
      plain_client_def spec_serializeMethodCall_def rd_wr)

theorem composeRequest_on_stored_headers_witness:
  "\<exists>h1 cl h2 cl'.
      methodCall node configured cookie_client ''m'' [] = Inr (h1, cl)
    \<and> options plain_client = options cookie_client
    \<and> methodCall node h1 plain_client ''m'' [] = Inr (h2, cl')
    \<and> (cookies plain_client = None \<or> processors plain_client = [])
    \<and> rd configured 1 ''Cookie'' = Undefined
    \<and> rd h1 1 ''Cookie'' = Str ''a=1''
    \<and> lookup (req_header (request cl)) ''Cookie'' = Str ''a=1''
    \<and> h2 = h1
    \<and> lookup (req_header (request cl')) ''Cookie'' = Str ''a=1''"
proof -
  let ?h1 = "wr 1 ''Cookie'' (Str ''a=1'') configured"
  from cookie_call obtain cl where
    m: "methodCall node configured cookie_client ''m'' [] = Inr (?h1, cl)"
    by blast
  from plain_call obtain h2 cl' where
    m': "methodCall node ?h1 plain_client ''m'' [] = Inr (h2, cl')"
    by blast
  have o: "options plain_client = options cookie_client"
    by (simp add: plain_client_def cookie_client_def)
  have p: "cookies plain_client = None \<or> processors plain_client = []"
    by (simp add: plain_client_def)
  have k: "''Cookie'' \<noteq> ''Content-Length''"
    by simp
  have s: "rd ?h1 (options cookie_client) ''headers'' = Ref 1"
    by (simp add: rd_wr cookie_client_def configured_def rd_heap_of)
  have u: "rd configured 1 ''Cookie'' = Undefined"
    by (simp add: configured_def rd_heap_of)
  have w: "rd ?h1 1 ''Cookie'' = Str ''a=1''"
    by (simp add: rd_wr)
  note t = composeRequest_on_stored_headers [OF m o m']
  note sent = t [THEN conjunct2, THEN conjunct1, rule_format, OF k]
  note idle = t [THEN conjunct2, THEN conjunct2, THEN conjunct2, THEN conjunct2, THEN conjunct2,
      THEN mp, OF p]
  from sent [unfolded get_prop_def s]
  have 1: "lookup (req_header (request cl)) ''Cookie'' = Str ''a=1''"
    by (simp add: rd_wr)
  from idle have 2: "h2 = ?h1"
    by (rule conjunct1)
  from idle [THEN conjunct2, rule_format, OF k] 1
  have 3: "lookup (req_header (request cl')) ''Cookie'' = Str ''a=1''"
    by simp
  show ?thesis
    apply (rule exI [of _ ?h1], rule exI [of _ cl], rule exI [of _ h2], rule exI [of _ cl'])
    apply (intro conjI)
            apply (rule m)
           apply (rule o)
          apply (rule m')
         apply (rule p)
        apply (rule u)
       apply (rule w)
      apply (rule 1)
     apply (rule 2)
    apply (rule 3)
    done
qed

theorem errors_of_a_call_witness:
  "serializeMethodCall node ''m'' [Str [CHR 0x00]] (rd configured (options plain_client) ''encoding'')
       = Inl (EncodingError (Str [CHR 0x00]))
   \<and> methodCall node configured plain_client ''m'' [Str [CHR 0x00]]
       = Inl (EncodingError (Str [CHR 0x00]))
   \<and> (\<exists>h1 cl st. methodCall node configured plain_client ''m'' [] = Inr (h1, cl)
        \<and> gzip_succeeds node cl
        \<and> run node \<lparr>st_heap = h1, st_client = plain_client, st_call = cl\<rparr>
             [Deserialized (Str ''fault'') Undefined, ReqEnd Undefined 200 []] = Inr st
        \<and> Callback (Str ''fault'') Undefined \<in> set (log (st_call st)))
   \<and> (\<exists>h1 cl. methodCall failing_zlib configured_both plain_client ''m'' [] = Inr (h1, cl)
        \<and> \<not> gzip_succeeds failing_zlib cl
        \<and> list_all is_signal [Deserialized Null (Str ''v'')]
        \<and> run failing_zlib \<lparr>st_heap = h1, st_client = plain_client, st_call = cl\<rparr>
             [Deserialized Null (Str ''v''), Gzipped, ReqEnd Undefined 200 []] = Inl TypeError)"
proof -
  have x: "serializeMethodCall node ''m'' [Str [CHR 0x00]] (rd configured (options plain_client) ''encoding'')
       = Inl (EncodingError (Str [CHR 0x00]))"
    by (simp add: node_def spec_serializeMethodCall_def)
  from errors_of_a_call [where env = node and m = "''m''" and ps = "[Str [CHR 0x00]]"
      and h = configured and this = plain_client] x
  have 1: "methodCall node configured plain_client ''m'' [Str [CHR 0x00]]
       = Inl (EncodingError (Str [CHR 0x00]))"
    by blast
  from methodCall_sample obtain h1 cl where
    m: "methodCall node configured plain_client ''m'' [] = Inr (h1, cl)"
    by blast
  note g = methodCall_sample_plain [OF m]
  from errors_of_a_call [where env = node and m = "''m''" and ps = "[]"
      and h = configured and this = plain_client and earlier = "[]"
      and ev = "Deserialized (Str ''fault'') Undefined" and later = "[ReqEnd Undefined 200 []]"]
    m g
  have 2: "\<exists>st. run node \<lparr>st_heap = h1, st_client = plain_client, st_call = cl\<rparr>
             [Deserialized (Str ''fault'') Undefined, ReqEnd Undefined 200 []] = Inr st
        \<and> Callback (Str ''fault'') Undefined \<in> set (log (st_call st))"
    by simp
  from methodCall_sample_failing obtain h3 cl3 where
    m3: "methodCall failing_zlib configured_both plain_client ''m'' [] = Inr (h3, cl3)"
    by blast
  note g3 = methodCall_failing_pending [OF m3]
  have s3: "list_all is_signal [Deserialized Null (Str ''v'')]"
    by simp
  from errors_of_a_call [where env = failing_zlib and m = "''m''" and ps = "[]"
      and h = configured_both and this = plain_client
      and earlier = "[Deserialized Null (Str ''v'')]" and later = "[ReqEnd Undefined 200 []]"]
    m3 g3 s3
  have 3: "run failing_zlib \<lparr>st_heap = h3, st_client = plain_client, st_call = cl3\<rparr>
             [Deserialized Null (Str ''v''), Gzipped, ReqEnd Undefined 200 []] = Inl TypeError"
    by simp
  from x 1 m g 2 m3 g3 s3 3 show ?thesis
    by blast
qed

end
